theory Spec2Isabelle
  imports Complex_Main
begin

section \<open>Exosky: constellation loader and equatorial-to-Cartesian transform\<close>

text \<open>
  A shallow embedding of \<^verbatim>\<open>src/main.py\<close>: the class \<^verbatim>\<open>MainWindow\<close> with its XML
  loader (\<^verbatim>\<open>load_constellations\<close>, \<^verbatim>\<open>get_name_from_xml\<close>,
  \<^verbatim>\<open>extract_constellation_data\<close>), the coordinate transform
  (\<^verbatim>\<open>convert_to_cartesian\<close>) and the presentation glue (\<^verbatim>\<open>generate_buttons\<close>,
  \<^verbatim>\<open>show_details_window\<close>, \<^verbatim>\<open>draw_constellation\<close>).

  Exceptions are values of the type \<open>error\<close>: a function that can raise returns
  \<open>error + 'a\<close>, with \<open>Inl\<close> the exception that leaves the function. Lines printed to
  standard output are returned next to the result.
\<close>

subsection \<open>Exceptions\<close>

datatype error =
    ValueError
  | TypeError
  | AttributeError
  | ZeroDivisionError
  | ParseError
  | OSError

text \<open>Sequencing: the first exception raised ends the computation.\<close>

definition and_then :: "error + 'a \<Rightarrow> ('a \<Rightarrow> error + 'b) \<Rightarrow> error + 'b" where
  "and_then m f = (case m of Inl e \<Rightarrow> Inl e | Inr v \<Rightarrow> f v)"

subsection \<open>Python floats\<close>

text \<open>
  A Python \<^verbatim>\<open>float\<close> is an IEEE 754 binary64 value: a finite number, one of the two
  infinities, or not-a-number. A finite float is written \<open>Fin r\<close> with \<open>r\<close> the real
  number it denotes. The two zeros are one value \<open>Fin 0\<close>; every comparison the program
  makes (\<^verbatim>\<open>-0.0 < 0\<close> is false, \<^verbatim>\<open>-0.0 == 0.0\<close> is true) agrees with that.

  Every operation returns the exact result rounded to the nearest binary64 value, ties to
  the even significand. For a real \<open>r\<close> that is not zero, \<open>binade r\<close> is the exponent
  \<open>e\<close> with \<open>2^e \<le> |r| < 2^(e+1)\<close>, not below \<open>-1022\<close> (the subnormal range); the
  representable values around \<open>|r|\<close> are the multiples of \<open>2^(e-52)\<close>, and \<open>mag64 r\<close>
  is the nearest of them. A rounded magnitude of \<open>2^1024\<close> or more overflows to an
  infinity; a magnitude that rounds to zero underflows to zero.
\<close>

datatype pyfloat = Fin real | PInf | NInf | NaN

definition signed_inf :: "bool \<Rightarrow> pyfloat" where
  "signed_inf negative = (if negative then NInf else PInf)"

definition round_half_even :: "real \<Rightarrow> int" where
  "round_half_even x =
     (let f = \<lfloor>x\<rfloor>; d = x - of_int f
      in if d < 1 / 2 then f
         else if 1 / 2 < d then f + 1
         else if even f then f else f + 1)"

definition binade :: "real \<Rightarrow> int" where
  "binade r = max \<lfloor>log 2 \<bar>r\<bar>\<rfloor> (- 1022)"

definition mag64 :: "real \<Rightarrow> real" where
  "mag64 r =
     of_int (round_half_even (\<bar>r\<bar> / power_int 2 (binade r - 52)))
       * power_int 2 (binade r - 52)"

definition round64 :: "real \<Rightarrow> pyfloat" where
  "round64 r =
     (if r = 0 then Fin 0
      else if 2 ^ 1024 \<le> mag64 r then signed_inf (r < 0)
      else Fin (if r < 0 then - mag64 r else mag64 r))"

text \<open>Unary minus, which is exact.\<close>

fun py_neg :: "pyfloat \<Rightarrow> pyfloat" where
  "py_neg (Fin a) = Fin (- a)"
| "py_neg PInf = NInf"
| "py_neg NInf = PInf"
| "py_neg NaN = NaN"

fun py_add :: "pyfloat \<Rightarrow> pyfloat \<Rightarrow> pyfloat" where
  "py_add (Fin a) (Fin b) = round64 (a + b)"
| "py_add NaN _ = NaN"
| "py_add _ NaN = NaN"
| "py_add PInf NInf = NaN"
| "py_add NInf PInf = NaN"
| "py_add PInf _ = PInf"
| "py_add _ PInf = PInf"
| "py_add NInf _ = NInf"
| "py_add _ NInf = NInf"

fun py_mul :: "pyfloat \<Rightarrow> pyfloat \<Rightarrow> pyfloat" where
  "py_mul (Fin a) (Fin b) = round64 (a * b)"
| "py_mul NaN _ = NaN"
| "py_mul _ NaN = NaN"
| "py_mul (Fin a) PInf = (if a = 0 then NaN else signed_inf (a < 0))"
| "py_mul (Fin a) NInf = (if a = 0 then NaN else signed_inf (0 < a))"
| "py_mul PInf (Fin b) = (if b = 0 then NaN else signed_inf (b < 0))"
| "py_mul NInf (Fin b) = (if b = 0 then NaN else signed_inf (0 < b))"
| "py_mul PInf PInf = PInf"
| "py_mul NInf NInf = PInf"
| "py_mul PInf NInf = NInf"
| "py_mul NInf PInf = NInf"

text \<open>\<^verbatim>\<open>a / b\<close> on floats raises \<^verbatim>\<open>ZeroDivisionError\<close> when the divisor is zero.\<close>

fun py_truediv :: "pyfloat \<Rightarrow> pyfloat \<Rightarrow> error + pyfloat" where
  "py_truediv a (Fin b) =
     (if b = 0 then Inl ZeroDivisionError
      else Inr (case a of
                  Fin x \<Rightarrow> round64 (x / b)
                | PInf \<Rightarrow> signed_inf (b < 0)
                | NInf \<Rightarrow> signed_inf (0 < b)
                | NaN \<Rightarrow> NaN))"
| "py_truediv a NaN = Inr NaN"
| "py_truediv (Fin x) _ = Inr (Fin 0)"
| "py_truediv _ _ = Inr NaN"

fun py_lt :: "pyfloat \<Rightarrow> pyfloat \<Rightarrow> bool" where
  "py_lt (Fin a) (Fin b) = (a < b)"
| "py_lt NaN _ = False"
| "py_lt _ NaN = False"
| "py_lt NInf NInf = False"
| "py_lt NInf _ = True"
| "py_lt _ NInf = False"
| "py_lt PInf _ = False"
| "py_lt _ PInf = True"

fun py_abs :: "pyfloat \<Rightarrow> pyfloat" where
  "py_abs (Fin a) = Fin \<bar>a\<bar>"
| "py_abs PInf = PInf"
| "py_abs NInf = PInf"
| "py_abs NaN = NaN"

text \<open>
  \<^verbatim>\<open>math.radians(x)\<close> is the float product of \<open>x\<close> and the constant
  \<^verbatim>\<open>pi / 180\<close>, itself a float: \<^verbatim>\<open>0.017453292519943295\<close>, which is
  \<open>5030569068109113 / 2^58\<close>. \<^verbatim>\<open>math.cos\<close> and \<^verbatim>\<open>math.sin\<close> raise
  \<^verbatim>\<open>ValueError\<close> (math domain error) on an infinite argument and pass not-a-number
  through. On a finite argument the C library computes them; its result is taken to be
  the cosine or the sine rounded to the nearest float, which gives \<^verbatim>\<open>cos(0.0) = 1.0\<close>
  and \<^verbatim>\<open>sin(0.0) = 0.0\<close> as the C standard guarantees. A library that is off by a
  unit in the last place changes those values only; of them the statements below use
  no more than that they are floats between \<open>-1\<close> and \<open>1\<close>.
\<close>

definition deg_to_rad :: real where
  "deg_to_rad = 5030569068109113 / 2 ^ 58"

definition math_radians :: "pyfloat \<Rightarrow> pyfloat" where
  "math_radians x = py_mul x (Fin deg_to_rad)"

fun math_cos :: "pyfloat \<Rightarrow> error + pyfloat" where
  "math_cos (Fin a) = Inr (round64 (cos a))"
| "math_cos NaN = Inr NaN"
| "math_cos _ = Inl ValueError"

fun math_sin :: "pyfloat \<Rightarrow> error + pyfloat" where
  "math_sin (Fin a) = Inr (round64 (sin a))"
| "math_sin NaN = Inr NaN"
| "math_sin _ = Inl ValueError"

subsection \<open>Strings: \<^verbatim>\<open>str.split()\<close>, \<^verbatim>\<open>str.endswith\<close>, \<^verbatim>\<open>float(str)\<close>\<close>

text \<open>
  A \<open>string\<close> is read as a sequence of code points below 256. The white space of
  \<^verbatim>\<open>str.isspace\<close> in that range is TAB, LF, VT, FF, CR, the separators FS, GS, RS, US,
  the space, NEL and the no-break space.
\<close>

definition py_isspace :: "char \<Rightarrow> bool" where
  "py_isspace c =
     (c \<in> set [CHR 0x09, CHR 0x0A, CHR 0x0B, CHR 0x0C, CHR 0x0D,
               CHR 0x1C, CHR 0x1D, CHR 0x1E, CHR 0x1F, CHR 0x20, CHR 0x85, CHR 0xA0])"

text \<open>
  \<^verbatim>\<open>s.split()\<close> with no separator: the maximal runs of characters that are not white
  space, in order; \<open>cur\<close> is the run being read.
\<close>

fun split_from :: "string \<Rightarrow> string \<Rightarrow> string list" where
  "split_from cur [] = (if cur = [] then [] else [cur])"
| "split_from cur (c # cs) =
     (if py_isspace c then (if cur = [] then split_from [] cs else cur # split_from [] cs)
      else split_from (cur @ [c]) cs)"

definition str_split :: "string \<Rightarrow> string list" where
  "str_split s = split_from [] s"

definition endswith :: "string \<Rightarrow> string \<Rightarrow> bool" where
  "endswith s suffix =
     (length suffix \<le> length s \<and> drop (length s - length suffix) s = suffix)"

text \<open>
  The white space that \<^verbatim>\<open>float\<close> strips from both ends of a string: the six ASCII
  characters TAB, LF, VT, FF, CR and the space, and NEL and the no-break space. The
  separators FS, GS, RS and US are not stripped.
\<close>

definition float_isspace :: "char \<Rightarrow> bool" where
  "float_isspace c =
     (c \<in> set [CHR 0x09, CHR 0x0A, CHR 0x0B, CHR 0x0C, CHR 0x0D, CHR 0x20, CHR 0x85, CHR 0xA0])"

definition float_strip :: "string \<Rightarrow> string" where
  "float_strip s = rev (dropWhile float_isspace (rev (dropWhile float_isspace s)))"

definition is_digit :: "char \<Rightarrow> bool" where
  "is_digit c = (c \<in> set ''0123456789'')"

definition digit_val :: "char \<Rightarrow> nat" where
  "digit_val c = of_char c - 48"

definition digits_val :: "string \<Rightarrow> nat" where
  "digits_val ds = foldl (\<lambda>acc c. 10 * acc + digit_val c) 0 ds"

text \<open>
  Underscores in a numeric literal: allowed only between two digits. \<open>prev\<close> is the
  character before the one being read (\<open>None\<close> at the start).
\<close>

fun underscores_ok :: "char option \<Rightarrow> string \<Rightarrow> bool" where
  "underscores_ok prev [] = (prev \<noteq> Some CHR ''_'')"
| "underscores_ok prev (c # cs) =
     (if c = CHR ''_'' then
        (case prev of Some p \<Rightarrow> is_digit p \<and> underscores_ok (Some c) cs | None \<Rightarrow> False)
      else if prev = Some CHR ''_'' then is_digit c \<and> underscores_ok (Some c) cs
      else underscores_ok (Some c) cs)"

definition ascii_lower :: "char \<Rightarrow> char" where
  "ascii_lower c =
     (case map_of (zip ''ABCDEFGHIJKLMNOPQRSTUVWXYZ'' ''abcdefghijklmnopqrstuvwxyz'') c of
        Some l \<Rightarrow> l
      | None \<Rightarrow> c)"

text \<open>
  The unsigned decimal part of a literal, underscores already removed: digits, an
  optional point, digits (at least one digit in all), then an optional exponent
  \<^verbatim>\<open>e\<close> or \<^verbatim>\<open>E\<close>, an optional sign and at least one digit. The result is the
  exact value of the literal; \<open>None\<close> when the text is not of that shape.
\<close>

definition parse_exponent :: "string \<Rightarrow> int option" where
  "parse_exponent s =
     (case s of
        [] \<Rightarrow> Some 0
      | c # r \<Rightarrow>
          if c = CHR ''e'' \<or> c = CHR ''E'' then
            (let (neg, ds) = (case r of
                                [] \<Rightarrow> (False, [])
                              | d # r' \<Rightarrow> if d = CHR ''-'' then (True, r')
                                          else if d = CHR ''+'' then (False, r')
                                          else (False, r))
             in if ds \<noteq> [] \<and> list_all is_digit ds
                then Some (if neg then - int (digits_val ds) else int (digits_val ds))
                else None)
          else None)"

definition parse_decimal :: "string \<Rightarrow> real option" where
  "parse_decimal s =
     (let ip = takeWhile is_digit s;
          r1 = dropWhile is_digit s;
          (fp, r2) = (case r1 of
                        [] \<Rightarrow> ([], [])
                      | c # r \<Rightarrow> if c = CHR ''.''
                                 then (takeWhile is_digit r, dropWhile is_digit r)
                                 else ([], r1))
      in if ip = [] \<and> fp = [] then None
         else (case parse_exponent r2 of
                 None \<Rightarrow> None
               | Some e \<Rightarrow>
                   Some (real (digits_val (ip @ fp)) / 10 ^ length fp
                         * (if 0 \<le> e then 10 ^ nat e else 1 / 10 ^ nat (- e)))))"

text \<open>
  \<^verbatim>\<open>float(s)\<close> for a string: surrounding white space is stripped, underscores are
  checked and removed, then an optional sign and either \<^verbatim>\<open>inf\<close>, \<^verbatim>\<open>infinity\<close>,
  \<^verbatim>\<open>nan\<close> (in any case) or a decimal literal, whose value is rounded to the nearest
  float: a literal too large reads as an infinity, one too small as zero. Anything else
  raises \<^verbatim>\<open>ValueError\<close>.
\<close>

definition float_of_str :: "string \<Rightarrow> error + pyfloat" where
  "float_of_str s =
     (let t = float_strip s in
      if \<not> underscores_ok None t then Inl ValueError
      else
        (let u = filter (\<lambda>c. c \<noteq> CHR ''_'') t;
             (neg, body) = (case u of
                              [] \<Rightarrow> (False, [])
                            | c # r \<Rightarrow> if c = CHR ''-'' then (True, r)
                                       else if c = CHR ''+'' then (False, r)
                                       else (False, u));
             low = map ascii_lower body
         in if low = ''inf'' \<or> low = ''infinity'' then Inr (signed_inf neg)
            else if low = ''nan'' then Inr NaN
            else (case parse_decimal body of
                    None \<Rightarrow> Inl ValueError
                  | Some v \<Rightarrow> Inr (if neg then py_neg (round64 v) else round64 v))))"

text \<open>
  \<^verbatim>\<open>float(x)\<close> where \<open>x\<close> is the \<^verbatim>\<open>text\<close> of an XML element: \<^verbatim>\<open>None\<close> for an
  element without text, and \<^verbatim>\<open>float(None)\<close> raises \<^verbatim>\<open>TypeError\<close>.
\<close>

definition py_float :: "string option \<Rightarrow> error + pyfloat" where
  "py_float x = (case x of None \<Rightarrow> Inl TypeError | Some s \<Rightarrow> float_of_str s)"

text \<open>
  \<^verbatim>\<open>a, b, c = map(float, s.split())\<close>: \<^verbatim>\<open>map\<close> is lazy and the unpacking draws from
  it, so \<^verbatim>\<open>float\<close> runs on the tokens in order and the first failure is raised;
  the unpacking asks for a fourth value to see that there is none. Fewer or more than
  three values raise \<^verbatim>\<open>ValueError\<close>.
\<close>

definition unpack3_floats :: "string list \<Rightarrow> error + (pyfloat \<times> pyfloat \<times> pyfloat)" where
  "unpack3_floats toks =
     (case toks of
        t1 # t2 # t3 # rest \<Rightarrow>
          and_then (float_of_str t1) (\<lambda>a.
          and_then (float_of_str t2) (\<lambda>b.
          and_then (float_of_str t3) (\<lambda>c.
            (case rest of
               [] \<Rightarrow> Inr (a, b, c)
             | t4 # _ \<Rightarrow> and_then (float_of_str t4) (\<lambda>_. Inl ValueError)))))
      | [t1, t2] \<Rightarrow>
          and_then (float_of_str t1) (\<lambda>a.
          and_then (float_of_str t2) (\<lambda>b. Inl ValueError))
      | [t1] \<Rightarrow> and_then (float_of_str t1) (\<lambda>a. Inl ValueError)
      | [] \<Rightarrow> Inl ValueError)"

subsection \<open>The coordinate transform\<close>

text \<open>
  Lines 141 to 143 of \<^verbatim>\<open>convert_to_cartesian\<close>, the two angles in degrees:
  \<^verbatim>\<open>
  ra_degrees = 15 * (ra_h + ra_m / 60 + ra_s / 3600)
  sign = -1 if dec_d < 0 else 1
  dec_degrees = sign * (abs(dec_d) + dec_m / 60 + dec_s / 3600)
  \<close>
  The integer constants become floats in the mixed arithmetic.
\<close>

definition ra_degrees :: "pyfloat \<Rightarrow> pyfloat \<Rightarrow> pyfloat \<Rightarrow> error + pyfloat" where
  "ra_degrees ra_h ra_m ra_s =
     and_then (py_truediv ra_m (Fin 60)) (\<lambda>qm.
     and_then (py_truediv ra_s (Fin 3600)) (\<lambda>qs.
       Inr (py_mul (Fin 15) (py_add (py_add ra_h qm) qs))))"

definition dec_sign :: "pyfloat \<Rightarrow> pyfloat" where
  "dec_sign dec_d = (if py_lt dec_d (Fin 0) then Fin (- 1) else Fin 1)"

definition dec_degrees :: "pyfloat \<Rightarrow> pyfloat \<Rightarrow> pyfloat \<Rightarrow> error + pyfloat" where
  "dec_degrees dec_d dec_m dec_s =
     (let sign = dec_sign dec_d in
      and_then (py_truediv dec_m (Fin 60)) (\<lambda>qm.
      and_then (py_truediv dec_s (Fin 3600)) (\<lambda>qs.
        Inr (py_mul sign (py_add (py_add (py_abs dec_d) qm) qs)))))"

text \<open>
  Lines 148 to 152, the spherical-to-Cartesian step on the two angles in radians:
  \<^verbatim>\<open>
  x = distance * math.cos(dec_radians) * math.cos(ra_radians)
  y = distance * math.cos(dec_radians) * math.sin(ra_radians)
  z = distance * math.sin(dec_radians)
  \<close>
\<close>

definition spherical_to_xyz ::
  "pyfloat \<Rightarrow> pyfloat \<Rightarrow> pyfloat \<Rightarrow> error + (pyfloat \<times> pyfloat \<times> pyfloat)" where
  "spherical_to_xyz distance dec_radians ra_radians =
     and_then (math_cos dec_radians) (\<lambda>cd.
     and_then (math_cos ra_radians) (\<lambda>cr.
     and_then (math_sin ra_radians) (\<lambda>sr.
     and_then (math_sin dec_radians) (\<lambda>sd.
       Inr (py_mul (py_mul distance cd) cr,
            py_mul (py_mul distance cd) sr,
            py_mul distance sd)))))"

text \<open>
  \<^verbatim>\<open>convert_to_cartesian(self, right_ascension, declination, distance)\<close>. The
  function reads nothing of \<^verbatim>\<open>self\<close>. The two angle arguments are the \<^verbatim>\<open>text\<close> of
  XML elements, so either may be \<^verbatim>\<open>None\<close>, on which \<^verbatim>\<open>.split()\<close> raises
  \<^verbatim>\<open>AttributeError\<close>.
\<close>

definition str_split_opt :: "string option \<Rightarrow> error + string list" where
  "str_split_opt x = (case x of None \<Rightarrow> Inl AttributeError | Some s \<Rightarrow> Inr (str_split s))"

definition convert_to_cartesian ::
  "string option \<Rightarrow> string option \<Rightarrow> pyfloat \<Rightarrow> error + (pyfloat \<times> pyfloat \<times> pyfloat)" where
  "convert_to_cartesian right_ascension declination distance =
     and_then (str_split_opt right_ascension) (\<lambda>ra_toks.
     and_then (unpack3_floats ra_toks) (\<lambda>(ra_h, ra_m, ra_s).
     and_then (str_split_opt declination) (\<lambda>dec_toks.
     and_then (unpack3_floats dec_toks) (\<lambda>(dec_d, dec_m, dec_s).
     and_then (ra_degrees ra_h ra_m ra_s) (\<lambda>ra_deg.
     and_then (dec_degrees dec_d dec_m dec_s) (\<lambda>dec_deg.
       spherical_to_xyz distance (math_radians dec_deg) (math_radians ra_deg)))))))"

subsection \<open>XML files and the directory\<close>

text \<open>
  An element of an \<^verbatim>\<open>ElementTree\<close>: its tag, its \<^verbatim>\<open>text\<close> (\<^verbatim>\<open>None\<close> when the element
  has none) and its children in document order. \<^verbatim>\<open>root.find(t)\<close> with a plain tag is
  the first direct child with that tag, or \<^verbatim>\<open>None\<close>.
\<close>

datatype element = Element (elem_tag: string) (elem_text: "string option")
  (elem_children: "element list")

definition find_elem :: "element \<Rightarrow> string \<Rightarrow> element option" where
  "find_elem xml_root t = List.find (\<lambda>c. elem_tag c = t) (elem_children xml_root)"

text \<open>\<^verbatim>\<open>root.find(t).text\<close>: the attribute access raises on \<^verbatim>\<open>None\<close>.\<close>

definition find_text :: "element \<Rightarrow> string \<Rightarrow> error + string option" where
  "find_text xml_root t =
     (case find_elem xml_root t of None \<Rightarrow> Inl AttributeError | Some e \<Rightarrow> Inr (elem_text e))"

text \<open>
  What the program sees of the file system: \<^verbatim>\<open>os.listdir(d)\<close>, the entry names of a
  directory in the order the call returns them or the exception it raises, and
  \<^verbatim>\<open>ET.parse(p).getroot()\<close>, the root element of the file at a path or the exception
  raised by opening or parsing it. Every exception of \<open>error\<close> is a subclass of
  \<^verbatim>\<open>Exception\<close>, which is what the \<^verbatim>\<open>except\<close> clauses of the program catch.
\<close>

record filesystem =
  os_listdir :: "string \<Rightarrow> error + string list"
  et_parse :: "string \<Rightarrow> error + element"

text \<open>\<^verbatim>\<open>os.path.join(a, b)\<close> on a POSIX system.\<close>

definition os_path_join :: "string \<Rightarrow> string \<Rightarrow> string" where
  "os_path_join a b =
     (if b \<noteq> [] \<and> hd b = CHR ''/'' then b
      else if a = [] \<or> last a = CHR ''/'' then a @ b
      else a @ ''/'' @ b)"

text \<open>The lines the program prints, by the format string that produces them.\<close>

datatype log_line =
    NoNameTag string
  | ErrorReading string error
  | ErrorExtracting string error

subsection \<open>The loader\<close>

text \<open>
  \<^verbatim>\<open>get_name_from_xml\<close>: the text of the first \<^verbatim>\<open>name\<close> child of the root; \<^verbatim>\<open>None\<close>
  and one printed line when the file cannot be parsed or has no such child.
\<close>

definition get_name_from_xml :: "filesystem \<Rightarrow> string \<Rightarrow> string option \<times> log_line list" where
  "get_name_from_xml fs xml_path =
     (case et_parse fs xml_path of
        Inl e \<Rightarrow> (None, [ErrorReading xml_path e])
      | Inr xml_root \<Rightarrow>
          (case find_elem xml_root ''name'' of
             Some name_element \<Rightarrow> (elem_text name_element, [])
           | None \<Rightarrow> (None, [NoNameTag xml_path])))"

text \<open>
  The dictionaries \<^verbatim>\<open>{'name': ..., 'path': ...}\<close> of \<^verbatim>\<open>self.constelaciones\<close> and the
  star dictionaries built by \<^verbatim>\<open>extract_constellation_data\<close> (its key \<^verbatim>\<open>'name'\<close> is
  the field \<open>star_name\<close>).
\<close>

record descriptor =
  name :: string
  path :: string

record star =
  star_name :: "string option"
  rightascension :: "string option"
  declination :: "string option"
  distance :: pyfloat

text \<open>
  A button: its label and the path its \<^verbatim>\<open>clicked\<close> handler passes to
  \<^verbatim>\<open>show_details_window\<close>. The window: the fields of \<^verbatim>\<open>MainWindow\<close> the methods read
  and write; \<open>button_layout\<close> holds the button of each row added to the layout.
\<close>

record button =
  button_text :: string
  click_path :: string

record main_window =
  xml_folder :: string
  constelaciones :: "descriptor list"
  buttons :: "button list"
  button_layout :: "button list"

definition main_window_init :: "string \<Rightarrow> main_window" where
  "main_window_init folder =
     \<lparr>xml_folder = folder, constelaciones = [], buttons = [], button_layout = []\<rparr>"

text \<open>
  The loop of \<^verbatim>\<open>load_constellations\<close> over the entries of the directory. A name is
  kept when it is truthy: not \<^verbatim>\<open>None\<close> and not the empty string.
\<close>

fun load_files ::
  "filesystem \<Rightarrow> string list \<Rightarrow> main_window \<Rightarrow> main_window \<times> log_line list" where
  "load_files fs [] w = (w, [])"
| "load_files fs (xml_file # rest) w =
     (if endswith xml_file ''.xml'' then
        (let (nm, out) = get_name_from_xml fs (os_path_join (xml_folder w) xml_file);
             w1 = (case nm of
                     None \<Rightarrow> w
                   | Some n \<Rightarrow>
                       if n \<noteq> [] then
                         w\<lparr>constelaciones := constelaciones w @
                             [\<lparr>name = n, path = os_path_join (xml_folder w) xml_file\<rparr>]\<rparr>
                       else w);
             (w2, out2) = load_files fs rest w1
         in (w2, out @ out2))
      else load_files fs rest w)"

definition load_constellations ::
  "filesystem \<Rightarrow> main_window \<Rightarrow> error + (main_window \<times> log_line list)" where
  "load_constellations fs w =
     and_then (os_listdir fs (xml_folder w)) (\<lambda>files. Inr (load_files fs files w))"

text \<open>The loop of \<^verbatim>\<open>generate_buttons\<close> over \<^verbatim>\<open>self.constelaciones\<close>.\<close>

fun add_buttons :: "descriptor list \<Rightarrow> main_window \<Rightarrow> main_window" where
  "add_buttons [] w = w"
| "add_buttons (constelacion # rest) w =
     (let b = \<lparr>button_text = name constelacion, click_path = path constelacion\<rparr>
      in add_buttons rest
           (w\<lparr>button_layout := button_layout w @ [b], buttons := buttons w @ [b]\<rparr>))"

definition generate_buttons :: "main_window \<Rightarrow> main_window" where
  "generate_buttons w = add_buttons (constelaciones w) w"

subsection \<open>Opening a constellation\<close>

text \<open>
  The body of the \<^verbatim>\<open>try\<close> block of \<^verbatim>\<open>extract_constellation_data\<close>, then the function
  with its \<^verbatim>\<open>except Exception\<close> clause, which prints and returns \<^verbatim>\<open>None\<close>.
\<close>

definition extract_body :: "filesystem \<Rightarrow> string \<Rightarrow> error + star list" where
  "extract_body fs xml_path =
     and_then (et_parse fs xml_path) (\<lambda>xml_root.
     and_then (find_text xml_root ''name'') (\<lambda>nm.
     and_then (find_text xml_root ''rightascension'') (\<lambda>right_ascension.
     and_then (find_text xml_root ''declination'') (\<lambda>dec.
     and_then (find_text xml_root ''distance'') (\<lambda>dist_text.
     and_then (py_float dist_text) (\<lambda>dist_val.
       Inr ([] @ [\<lparr>star_name = nm, rightascension = right_ascension,
                   declination = dec, distance = dist_val\<rparr>])))))))"

definition extract_constellation_data ::
  "filesystem \<Rightarrow> string \<Rightarrow> star list option \<times> log_line list" where
  "extract_constellation_data fs xml_path =
     (case extract_body fs xml_path of
        Inr constellation \<Rightarrow> (Some constellation, [])
      | Inl e \<Rightarrow> (None, [ErrorExtracting xml_path e]))"

text \<open>
  The figure handed to the plotting library: the trace of the stars and the trace of
  the Earth at the origin. Styling is left out.
\<close>

record trace =
  trace_x :: "pyfloat list"
  trace_y :: "pyfloat list"
  trace_z :: "pyfloat list"
  trace_text :: "string option list"
  trace_name :: string

text \<open>
  The loop of \<^verbatim>\<open>draw_constellation\<close>: \<^verbatim>\<open>convert_to_cartesian\<close> is called for each
  star with no handler around it, so its exception ends the loop and leaves
  \<^verbatim>\<open>draw_constellation\<close>.
\<close>

fun draw_points :: "star list \<Rightarrow> trace \<Rightarrow> error + trace" where
  "draw_points [] t = Inr t"
| "draw_points (s # rest) t =
     and_then (convert_to_cartesian (rightascension s) (declination s) (distance s))
       (\<lambda>(x, y, z).
          draw_points rest
            (t\<lparr>trace_x := trace_x t @ [x], trace_y := trace_y t @ [y],
               trace_z := trace_z t @ [z], trace_text := trace_text t @ [star_name s]\<rparr>))"

definition earth_trace :: trace where
  "earth_trace =
     \<lparr>trace_x = [Fin 0], trace_y = [Fin 0], trace_z = [Fin 0],
      trace_text = [Some ''Earth''], trace_name = ''Earth''\<rparr>"

definition draw_constellation :: "star list \<Rightarrow> error + trace list" where
  "draw_constellation constellation =
     and_then
       (draw_points constellation
          \<lparr>trace_x = [], trace_y = [], trace_z = [], trace_text = [], trace_name = ''Stars''\<rparr>)
       (\<lambda>stars. Inr [stars, earth_trace])"

text \<open>
  \<^verbatim>\<open>show_details_window\<close>: the figure shown (if any) and the lines printed, or the
  exception that leaves the method. \<^verbatim>\<open>if constellation_data:\<close> holds for a list that
  is not empty.
\<close>

definition show_details_window ::
  "filesystem \<Rightarrow> string \<Rightarrow> error + (trace list option \<times> log_line list)" where
  "show_details_window fs xml_path =
     (let (constellation_data, out) = extract_constellation_data fs xml_path in
      case constellation_data of
        None \<Rightarrow> Inr (None, out)
      | Some constellation \<Rightarrow>
          if constellation \<noteq> [] then
            and_then (draw_constellation constellation) (\<lambda>fig. Inr (Some fig, out))
          else Inr (None, out))"

subsection \<open>The transform, as the specification words it\<close>

text \<open>
  The two angles of the specification in the arithmetic of the program:
  \<open>ra = radians(15 * (h + m/60 + s/3600))\<close> and
  \<open>dec = radians(sgn * (|d| + m/60 + s/3600))\<close>, with \<open>sgn\<close> the sign taken from the
  degree token and the conversion to radians the product with the float \<^verbatim>\<open>pi / 180\<close>.
  \<open>quot_const x c\<close> is the quotient of a float by a constant that is not zero;
  \<open>cos_val\<close> and \<open>sin_val\<close> are \<^verbatim>\<open>math.cos\<close> and \<^verbatim>\<open>math.sin\<close> where they return.
\<close>

definition quot_const :: "pyfloat \<Rightarrow> real \<Rightarrow> pyfloat" where
  "quot_const x c = (case py_truediv x (Fin c) of Inr q \<Rightarrow> q | Inl e \<Rightarrow> NaN)"

definition sexagesimal :: "pyfloat \<Rightarrow> pyfloat \<Rightarrow> pyfloat \<Rightarrow> pyfloat" where
  "sexagesimal a m s = py_add (py_add a (quot_const m 60)) (quot_const s 3600)"

definition ra_angle :: "pyfloat \<Rightarrow> pyfloat \<Rightarrow> pyfloat \<Rightarrow> pyfloat" where
  "ra_angle h m s = py_mul (py_mul (Fin 15) (sexagesimal h m s)) (Fin deg_to_rad)"

definition dec_angle :: "pyfloat \<Rightarrow> pyfloat \<Rightarrow> pyfloat \<Rightarrow> pyfloat" where
  "dec_angle d m s =
     py_mul
       (py_mul (if py_lt d (Fin 0) then Fin (- 1) else Fin 1) (sexagesimal (py_abs d) m s))
       (Fin deg_to_rad)"

definition is_infinite :: "pyfloat \<Rightarrow> bool" where
  "is_infinite x = (x = PInf \<or> x = NInf)"

definition cos_val :: "pyfloat \<Rightarrow> pyfloat" where
  "cos_val x = (case math_cos x of Inr c \<Rightarrow> c | Inl e \<Rightarrow> NaN)"

definition sin_val :: "pyfloat \<Rightarrow> pyfloat" where
  "sin_val x = (case math_sin x of Inr c \<Rightarrow> c | Inl e \<Rightarrow> NaN)"

text \<open>A token that \<^verbatim>\<open>float\<close> reads as a finite number.\<close>

definition reads_finite :: "string \<Rightarrow> bool" where
  "reads_finite tok = (case float_of_str tok of Inr (Fin v) \<Rightarrow> True | _ \<Rightarrow> False)"

text \<open>
  Two predicates for the statements: a float that rounding leaves as it is (every float
  the arithmetic produces is one), and a float that is at least a given real, plus
  infinity included.
\<close>

definition representable :: "pyfloat \<Rightarrow> bool" where
  "representable x = (case x of Fin a \<Rightarrow> round64 a = Fin a | _ \<Rightarrow> True)"


subsection \<open>The loader, as the specification words it\<close>

text \<open>
  Two definitions that follow the words of the specification, to compare with
  \<open>load_files\<close>: the descriptor an entry of the directory yields (its name ends in
  \<^verbatim>\<open>.xml\<close>, it parses, and the first \<^verbatim>\<open>name\<close> child of its root has a text that is
  not empty), and the lines printed for an entry that is skipped.
\<close>

definition valid_descriptor :: "filesystem \<Rightarrow> string \<Rightarrow> string \<Rightarrow> descriptor option" where
  "valid_descriptor fs folder f =
     (if endswith f ''.xml'' then
        (case et_parse fs (os_path_join folder f) of
           Inl e \<Rightarrow> None
         | Inr xml_root \<Rightarrow>
             (case find_elem xml_root ''name'' of
                None \<Rightarrow> None
              | Some e \<Rightarrow>
                  (case elem_text e of
                     None \<Rightarrow> None
                   | Some n \<Rightarrow>
                       if n = [] then None
                       else Some \<lparr>name = n, path = os_path_join folder f\<rparr>)))
      else None)"

definition skip_log :: "filesystem \<Rightarrow> string \<Rightarrow> string \<Rightarrow> log_line list" where
  "skip_log fs folder f =
     (if endswith f ''.xml'' then
        (case et_parse fs (os_path_join folder f) of
           Inl e \<Rightarrow> [ErrorReading (os_path_join folder f) e]
         | Inr xml_root \<Rightarrow>
             (case find_elem xml_root ''name'' of
                None \<Rightarrow> [NoNameTag (os_path_join folder f)]
              | Some e \<Rightarrow> []))
      else [])"

subsection \<open>Files with further entries, and the four fields of a star\<close>

text \<open>
  The root of a file with further children appended after the ones it has, and the file
  system in which the file at a path has a given root; the tags that
  \<^verbatim>\<open>extract_constellation_data\<close> looks up.
\<close>

definition with_more_children :: "element \<Rightarrow> element list \<Rightarrow> element" where
  "with_more_children xml_root extra =
     Element (elem_tag xml_root) (elem_text xml_root) (elem_children xml_root @ extra)"

definition with_file :: "filesystem \<Rightarrow> string \<Rightarrow> element \<Rightarrow> filesystem" where
  "with_file fs p xml_root = fs\<lparr>et_parse := (et_parse fs)(p := Inr xml_root)\<rparr>"

definition star_fields :: "string list" where
  "star_fields = [''name'', ''rightascension'', ''declination'', ''distance'']"

subsection \<open>A sample directory tree\<close>

text \<open>
  Concrete files for evaluating the loader: a star with a second, later \<^verbatim>\<open>name\<close> and
  \<^verbatim>\<open>distance\<close>, a plain star, a file without \<^verbatim>\<open>name\<close>, a file whose \<^verbatim>\<open>name\<close> is
  empty, a file whose right ascension is not numeric and a file whose distance is not
  numeric; the directories \<^verbatim>\<open>systems\<close>, \<^verbatim>\<open>junk\<close>, \<^verbatim>\<open>unnamed\<close> and
  \<^verbatim>\<open>faulty\<close>.
\<close>

definition sirius_xml :: element where
  "sirius_xml =
     Element ''system'' None
       [Element ''name'' (Some ''Sirius'') [],
        Element ''rightascension'' (Some ''6 45 9'') [],
        Element ''declination'' (Some ''-16 42 58'') [],
        Element ''distance'' (Some ''2.5'') [],
        Element ''name'' (Some ''Sirius B'') [],
        Element ''distance'' (Some ''9'') []]"

definition vega_xml :: element where
  "vega_xml =
     Element ''system'' None
       [Element ''name'' (Some ''Vega'') [],
        Element ''rightascension'' (Some ''18 36 56'') [],
        Element ''declination'' (Some ''38 47 1'') [],
        Element ''distance'' (Some ''7.75'') []]"

definition noname_xml :: element where
  "noname_xml =
     Element ''system'' None
       [Element ''rightascension'' (Some ''1 2 3'') [],
        Element ''distance'' (Some ''4'') []]"

definition emptyname_xml :: element where
  "emptyname_xml =
     Element ''system'' None
       [Element ''name'' None [],
        Element ''rightascension'' (Some ''1 2 3'') [],
        Element ''declination'' (Some ''4 5 6'') [],
        Element ''distance'' (Some ''7'') []]"

definition badra_xml :: element where
  "badra_xml =
     Element ''system'' None
       [Element ''name'' (Some ''Bad'') [],
        Element ''rightascension'' (Some ''abc'') [],
        Element ''declination'' (Some ''0 0 0'') [],
        Element ''distance'' (Some ''1'') []]"

definition baddist_xml :: element where
  "baddist_xml =
     Element ''system'' None
       [Element ''name'' (Some ''Far'') [],
        Element ''rightascension'' (Some ''0 0 0'') [],
        Element ''declination'' (Some ''0 0 0'') [],
        Element ''distance'' (Some ''far'') []]"

definition example_files :: "(string \<times> (error + element)) list" where
  "example_files =
     [(''systems/sirius.xml'', Inr sirius_xml),
      (''systems/broken.xml'', Inl ParseError),
      (''systems/vega.xml'', Inr vega_xml),
      (''systems/noname.xml'', Inr noname_xml),
      (''unnamed/emptyname.xml'', Inr emptyname_xml),
      (''faulty/badra.xml'', Inr badra_xml),
      (''faulty/baddist.xml'', Inr baddist_xml),
      (''junk/broken.xml'', Inl ParseError),
      (''junk/noname.xml'', Inr noname_xml)]"

definition example_fs :: filesystem where
  "example_fs =
     \<lparr>os_listdir = (\<lambda>d. if d = ''systems''
                         then Inr [''sirius.xml'', ''broken.xml'', ''notes.txt'', ''vega.xml'',
                                   ''noname.xml'']
                         else if d = ''junk''
                         then Inr [''notes.txt'', ''broken.xml'', ''noname.xml'']
                         else if d = ''unnamed''
                         then Inr [''emptyname.xml'']
                         else if d = ''faulty''
                         then Inr [''badra.xml'', ''baddist.xml'']
                         else Inl OSError),
      et_parse = (\<lambda>p. case map_of example_files p of
                         Some r \<Rightarrow> r
                       | None \<Rightarrow> Inl OSError)\<rparr>"

section \<open>Properties\<close>

subsection \<open>Sequencing\<close>

lemma and_then_Inl [simp]: "and_then (Inl e) f = Inl e"
  by (simp add: and_then_def)

lemma and_then_Inr [simp]: "and_then (Inr v) f = f v"
  by (simp add: and_then_def)

subsection \<open>Rounding to the nearest float\<close>

lemma rhe_ge: "of_int k \<le> x \<Longrightarrow> k \<le> round_half_even x"
proof -
  assume "of_int k \<le> x"
  then have "k \<le> \<lfloor>x\<rfloor>" by (simp add: le_floor_iff)
  then show ?thesis by (auto simp: round_half_even_def Let_def)
qed

lemma rhe_le: "x \<le> of_int k \<Longrightarrow> round_half_even x \<le> k"
proof -
  assume a: "x \<le> of_int k"
  have "of_int \<lfloor>x\<rfloor> \<le> x" by simp
  with a have "(of_int \<lfloor>x\<rfloor> :: real) \<le> of_int k" by linarith
  then have f: "\<lfloor>x\<rfloor> \<le> k" by simp
  show ?thesis
  proof (cases "x = of_int \<lfloor>x\<rfloor>")
    case True
    then have "x - of_int \<lfloor>x\<rfloor> = 0" by simp
    then show ?thesis using f by (simp add: round_half_even_def Let_def)
  next
    case False
    then have "of_int \<lfloor>x\<rfloor> < x" using of_int_floor_le [of x] by linarith
    then have "of_int \<lfloor>x\<rfloor> < (of_int k :: real)" using a by linarith
    then have "\<lfloor>x\<rfloor> + 1 \<le> k" by simp
    then show ?thesis using f by (auto simp: round_half_even_def Let_def)
  qed
qed

lemma rhe_of_int [simp]: "round_half_even (of_int k) = k"
  by (simp add: round_half_even_def)

lemma binade_bounds:
  assumes "r \<noteq> 0"
  shows "- 1022 \<le> binade r" and "\<bar>r\<bar> < power_int 2 (binade r + 1)"
    and "- 1022 < binade r \<or> power_int 2 (- 1022) \<le> \<bar>r\<bar> \<Longrightarrow> power_int 2 (binade r) \<le> \<bar>r\<bar>"
proof -
  let ?L = "\<lfloor>log 2 \<bar>r\<bar>\<rfloor>"
  have pos: "0 < \<bar>r\<bar>" using assms by simp
  have "?L = ?L" ..
  then have b: "2 powr ?L \<le> \<bar>r\<bar> \<and> \<bar>r\<bar> < 2 powr (?L + 1)"
    using floor_log_eq_powr_iff [OF pos, of 2 ?L] by simp
  have p: "2 powr (real_of_int k) = power_int (2::real) k" for k
    by (rule powr_real_of_int') simp_all
  have b1: "power_int 2 ?L \<le> \<bar>r\<bar>" using b p [of ?L] by simp
  have b2: "\<bar>r\<bar> < power_int 2 (?L + 1)" using b p [of "?L + 1"] by simp
  show "- 1022 \<le> binade r" by (simp add: binade_def)
  have "power_int (2::real) (?L + 1) \<le> power_int 2 (binade r + 1)"
    by (rule power_int_increasing) (simp_all add: binade_def)
  with b2 show "\<bar>r\<bar> < power_int 2 (binade r + 1)" by linarith
  show "power_int 2 (binade r) \<le> \<bar>r\<bar>"
    if "- 1022 < binade r \<or> power_int 2 (- 1022) \<le> \<bar>r\<bar>"
  proof (cases "- 1022 \<le> ?L")
    case True
    then have "binade r = ?L" by (simp add: binade_def)
    with b1 show ?thesis by simp
  next
    case False
    then have e: "binade r = - 1022" by (simp add: binade_def)
    with that have "power_int 2 (- 1022) \<le> \<bar>r\<bar>" by simp
    with e show ?thesis by simp
  qed
qed

lemma binade_le:
  assumes "r \<noteq> 0" and "\<bar>r\<bar> < power_int 2 (E + 1)" and "- 1022 \<le> E"
  shows "binade r \<le> E"
proof -
  let ?L = "\<lfloor>log 2 \<bar>r\<bar>\<rfloor>"
  have pos: "0 < \<bar>r\<bar>" using assms by simp
  have b: "2 powr ?L \<le> \<bar>r\<bar>"
    using floor_log_eq_powr_iff [OF pos, of 2 ?L] by simp
  have p: "2 powr (real_of_int k) = power_int (2::real) k" for k
    by (rule powr_real_of_int') simp_all
  have "power_int (2::real) ?L < power_int 2 (E + 1)" using b p [of ?L] assms(2) by simp
  then have "?L < E + 1"
    by (smt (verit) power_int_increasing)
  then show ?thesis using assms(3) by (simp add: binade_def)
qed


lemma binade_minus [simp]: "binade (- r) = binade r"
  by (simp add: binade_def)

lemma pow2_int: "0 \<le> j \<Longrightarrow> power_int (2::real) j = of_int (2 ^ nat j)"
  by (simp add: power_int_def)

lemma div_of_mult: "u \<noteq> 0 \<Longrightarrow> m = c * u \<Longrightarrow> m / u = (c::real)"
  by simp

lemma mag64_minus [simp]: "mag64 (- r) = mag64 r"
  by (simp add: mag64_def)

lemma round64_neg: "round64 (- r) = py_neg (round64 r)"
  by (cases "r = 0"; cases "r < 0") (auto simp: round64_def signed_inf_def)

lemma round64_mag:
  "r \<noteq> 0 \<Longrightarrow> round64 r = (if 2 ^ 1024 \<le> mag64 r then signed_inf (r < 0)
                              else Fin (if r < 0 then - mag64 r else mag64 r))"
  by (simp add: round64_def)

lemma mag64_nonneg: "0 \<le> mag64 r"
proof -
  have "(0::int) \<le> round_half_even (\<bar>r\<bar> / power_int 2 (binade r - 52))"
    by (rule rhe_ge) simp
  then show ?thesis by (simp add: mag64_def)
qed

lemma mag64_grid:
  assumes "0 < m" and "m = of_int N * power_int 2 (E - 52)" and "- 1022 \<le> E"
    and "m < power_int 2 (E + 1)"
  shows "mag64 m = m"
proof -
  have ne: "m \<noteq> 0" using assms(1) by simp
  have "\<bar>m\<bar> < power_int 2 (E + 1)" using assms(1,4) by simp
  from binade_le [OF ne this assms(3)] have le: "binade m \<le> E" .
  let ?u = "power_int (2::real) (binade m - 52)"
  have "power_int (2::real) (E - 52) = power_int 2 (E - binade m) * ?u"
    by (simp add: power_int_add [symmetric])
  then have "m = of_int N * power_int 2 (E - binade m) * ?u"
    using assms(2) by simp
  also have "power_int (2::real) (E - binade m) = of_int (2 ^ nat (E - binade m))"
    using le by (simp add: pow2_int)
  finally have m: "m = of_int (N * 2 ^ nat (E - binade m)) * ?u" by simp
  have "m / ?u = of_int (N * 2 ^ nat (E - binade m))"
    by (rule div_of_mult [OF _ m]) simp
  then have "\<bar>m\<bar> / ?u = of_int (N * 2 ^ nat (E - binade m))"
    using assms(1) by simp
  then have "round_half_even (\<bar>m\<bar> / ?u) = N * 2 ^ nat (E - binade m)"
    by (simp only: rhe_of_int)
  then show ?thesis unfolding mag64_def using m by simp
qed

lemma round64_grid:
  assumes "0 < m" and "m = of_int N * power_int 2 (E - 52)" and "- 1022 \<le> E"
    and "m < power_int 2 (E + 1)" and "m < 2 ^ 1024"
  shows "round64 m = Fin m"
  using assms(1,5) mag64_grid [OF assms(1-4)] by (simp add: round64_mag)

lemma mag64_le_pow:
  assumes "r \<noteq> 0" and "\<bar>r\<bar> \<le> power_int 2 K" and "- 1022 \<le> K"
  shows "mag64 r \<le> power_int 2 K"
proof -
  have "power_int (2::real) K < power_int 2 (K + 1)"
    by (rule power_int_strict_increasing) simp_all
  with assms(2) have "\<bar>r\<bar> < power_int 2 (K + 1)" by linarith
  from binade_le [OF assms(1) this assms(3)] have le: "binade r \<le> K" .
  let ?u = "power_int (2::real) (binade r - 52)"
  have u: "0 < ?u" by simp
  have K: "power_int (2::real) K = of_int (2 ^ nat (K - binade r + 52)) * ?u"
  proof -
    have "power_int (2::real) K = power_int 2 (K - binade r + 52) * ?u"
      by (simp add: power_int_add [symmetric])
    then show ?thesis using le by (simp add: pow2_int)
  qed
  have "\<bar>r\<bar> / ?u \<le> of_int (2 ^ nat (K - binade r + 52))"
    using assms(2) u unfolding K by (simp add: divide_le_eq)
  then have "round_half_even (\<bar>r\<bar> / ?u) \<le> 2 ^ nat (K - binade r + 52)"
    by (rule rhe_le)
  then have "of_int (round_half_even (\<bar>r\<bar> / ?u)) * ?u
               \<le> of_int (2 ^ nat (K - binade r + 52)) * ?u"
    using u by (simp only: mult_le_cancel_right_pos of_int_le_iff)
  then show ?thesis unfolding mag64_def K .
qed

lemma round64_bound:
  assumes "\<bar>r\<bar> \<le> 2 ^ k" and "k \<le> 1023"
  shows "\<exists>m. round64 r = Fin m \<and> \<bar>m\<bar> \<le> 2 ^ k"
proof (cases "r = 0")
  case True
  then show ?thesis by (simp add: round64_def)
next
  case False
  have "\<bar>r\<bar> \<le> power_int 2 (int k)" using assms(1) by simp
  from mag64_le_pow [OF False this] have m: "mag64 r \<le> 2 ^ k" by simp
  have "(2::real) ^ k \<le> 2 ^ 1023" using assms(2) by (intro power_increasing) simp_all
  also have "(2::real) ^ 1023 < 2 ^ 1024" by (intro power_strict_increasing) simp_all
  finally have "mag64 r < 2 ^ 1024" using m by linarith
  then show ?thesis
    using m mag64_nonneg [of r] False by (simp add: round64_mag)
qed


lemma pow2_shift:
  "power_int (2::real) (e + int k) = of_int (2 ^ k) * power_int 2 e"
proof -
  have "power_int (2::real) (int k + e) = power_int 2 (int k) * power_int 2 e"
    by (rule power_int_add) simp
  moreover have "int k + e = e + int k" by simp
  ultimately show ?thesis by simp
qed

lemma pow2_53: "power_int (2::real) (e + 1) = of_int (2 ^ 53) * power_int 2 (e - 52)"
  using pow2_shift [of "e - 52" 53] by (simp add: add.commute)

lemma pow2_52: "power_int (2::real) e = of_int (2 ^ 52) * power_int 2 (e - 52)"
  using pow2_shift [of "e - 52" 52] by simp

lemma mag64_upper:
  assumes "r \<noteq> 0"
  shows "round_half_even (\<bar>r\<bar> / power_int 2 (binade r - 52)) \<le> 2 ^ 53"
proof -
  let ?u = "power_int (2::real) (binade r - 52)"
  have u: "0 < ?u" by simp
  have "\<bar>r\<bar> < of_int (2 ^ 53) * ?u"
    using binade_bounds(2) [OF assms] unfolding pow2_53 [of "binade r"] .
  then have "\<bar>r\<bar> / ?u \<le> of_int (2 ^ 53)"
    using u by (simp add: divide_le_eq)
  then show ?thesis by (rule rhe_le)
qed

lemma mag64_idem:
  assumes "r \<noteq> 0" and "0 < mag64 r"
  shows "mag64 (mag64 r) = mag64 r"
proof -
  let ?e = "binade r"
  let ?u = "power_int (2::real) (?e - 52)"
  let ?n = "round_half_even (\<bar>r\<bar> / ?u)"
  have u: "0 < ?u" by simp
  have m: "mag64 r = of_int ?n * ?u" by (simp add: mag64_def)
  have e: "- 1022 \<le> ?e" by (rule binade_bounds(1) [OF assms(1)])
  have up: "?n \<le> 2 ^ 53" by (rule mag64_upper [OF assms(1)])
  show ?thesis
  proof (cases "?n < 2 ^ 53")
    case True
    then have "(of_int ?n :: real) < of_int (2 ^ 53)" by (simp only: of_int_less_iff)
    then have "of_int ?n * ?u < of_int (2 ^ 53) * ?u"
      using u by (simp only: mult_less_cancel_right_pos)
    also have "of_int (2 ^ 53) * ?u = power_int 2 (?e + 1)"
      by (rule pow2_53 [symmetric])
    finally have "mag64 r < power_int 2 (?e + 1)" using m by simp
    from mag64_grid [OF assms(2) m e this] show ?thesis .
  next
    case False
    with up have n: "?n = 2 ^ 53" by simp
    have "mag64 r = of_int (2 ^ 53) * ?u" using m n by simp
    also have "\<dots> = power_int 2 (?e + 1)"
      by (rule pow2_53 [symmetric])
    finally have p: "mag64 r = power_int 2 (?e + 1)" .
    have g: "mag64 r = of_int (2 ^ 52) * power_int 2 (?e + 1 - 52)"
      unfolding p by (rule pow2_52)
    have l: "mag64 r < power_int 2 (?e + 1 + 1)"
      unfolding p by (rule power_int_strict_increasing) simp_all
    have e1: "- 1022 \<le> ?e + 1" using e by simp
    from mag64_grid [OF assms(2) g e1 l] show ?thesis .
  qed
qed

lemma round64_idem: "round64 r = Fin m \<Longrightarrow> round64 m = Fin m"
proof -
  assume a: "round64 r = Fin m"
  show ?thesis
  proof (cases "r = 0")
    case True
    with a show ?thesis by (simp add: round64_def)
  next
    case False
    from a False have fin: "mag64 r < 2 ^ 1024" and mm: "m = (if r < 0 then - mag64 r else mag64 r)"
      by (auto simp: round64_mag signed_inf_def split: if_splits)
    show ?thesis
    proof (cases "mag64 r = 0")
      case True
      with mm show ?thesis by (simp add: round64_def)
    next
      case nz: False
      with mag64_nonneg [of r] have pos: "0 < mag64 r" by linarith
      from mag64_idem [OF False pos] have i: "mag64 (mag64 r) = mag64 r" .
      have p: "round64 (mag64 r) = Fin (mag64 r)"
        using pos fin i by (simp add: round64_mag)
      show ?thesis
      proof (cases "r < 0")
        case True
        with mm have "m = - mag64 r" by simp
        then show ?thesis using p by (simp add: round64_neg)
      next
        case False
        with mm p show ?thesis by simp
      qed
    qed
  qed
qed

lemma mag64_lower:
  assumes "r \<noteq> 0" and "- 1022 < binade r \<or> power_int 2 (- 1022) \<le> \<bar>r\<bar>"
  shows "power_int 2 (binade r) \<le> mag64 r"
proof -
  let ?u = "power_int (2::real) (binade r - 52)"
  have u: "0 < ?u" by simp
  have s: "power_int (2::real) (binade r) = of_int (2 ^ 52) * ?u"
    by (rule pow2_52)
  have "of_int (2 ^ 52) * ?u \<le> \<bar>r\<bar>"
    using binade_bounds(3) [OF assms] s by simp
  then have "of_int (2 ^ 52) \<le> \<bar>r\<bar> / ?u"
    using u by (simp add: le_divide_eq)
  then have "2 ^ 52 \<le> round_half_even (\<bar>r\<bar> / ?u)" by (rule rhe_ge)
  then have "(of_int (2 ^ 52) :: real) \<le> of_int (round_half_even (\<bar>r\<bar> / ?u))"
    by (simp only: of_int_le_iff)
  then have "of_int (2 ^ 52) * ?u \<le> of_int (round_half_even (\<bar>r\<bar> / ?u)) * ?u"
    using u by (simp only: mult_le_cancel_right_pos)
  then show ?thesis unfolding s mag64_def .
qed

lemma round64_overflow:
  assumes "2 ^ 1024 \<le> r"
  shows "round64 r = PInf"
proof -
  have pos: "0 < r" using assms by (smt (verit) zero_less_power)
  then have ne: "r \<noteq> 0" by simp
  have "power_int (2::real) 1024 \<le> \<bar>r\<bar>" using assms pos by simp
  also have "\<bar>r\<bar> < power_int 2 (binade r + 1)" by (rule binade_bounds(2) [OF ne])
  finally have "(1024::int) < binade r + 1"
    by (smt (verit) power_int_increasing)
  then have b: "1024 \<le> binade r" by simp
  then have "power_int (2::real) 1024 \<le> power_int 2 (binade r)"
    by (intro power_int_increasing) simp_all
  also have "\<dots> \<le> mag64 r"
    by (rule mag64_lower [OF ne]) (use b in simp)
  finally have "2 ^ 1024 \<le> mag64 r" by simp
  then show ?thesis using pos by (simp add: round64_mag signed_inf_def)
qed

text \<open>Rounding does not fall below a representable value that the real is not below.\<close>

lemma round64_ge:
  assumes "0 < b" and "round64 b = Fin b" and "b \<le> r"
  shows "round64 r = PInf \<or> (\<exists>m. round64 r = Fin m \<and> b \<le> m)"
proof -
  have pos: "0 < r" using assms(1,3) by linarith
  then have ne: "r \<noteq> 0" by simp
  have neb: "b \<noteq> 0" using assms(1) by simp
  let ?u = "power_int (2::real) (binade r - 52)"
  have u: "0 < ?u" by simp
  have bm: "mag64 b = b"
    using assms(1,2) by (auto simp: round64_mag signed_inf_def split: if_splits)
  have "\<bar>b\<bar> < power_int 2 (binade r + 1)"
    using binade_bounds(2) [OF ne] assms(1,3) by simp
  from binade_le [OF neb this binade_bounds(1) [OF ne]] have le: "binade b \<le> binade r" .
  have "b \<le> mag64 r"
  proof (cases "binade b = binade r")
    case True
    with bm have b: "b = of_int (round_half_even (\<bar>b\<bar> / ?u)) * ?u"
      by (simp add: mag64_def)
    then have "b / ?u = of_int (round_half_even (\<bar>b\<bar> / ?u))"
      by (intro div_of_mult) simp_all
    moreover have "b / ?u \<le> \<bar>r\<bar> / ?u"
      using assms(3) pos u by (intro divide_right_mono) simp_all
    ultimately have "of_int (round_half_even (\<bar>b\<bar> / ?u)) \<le> \<bar>r\<bar> / ?u" by simp
    then have "round_half_even (\<bar>b\<bar> / ?u) \<le> round_half_even (\<bar>r\<bar> / ?u)" by (rule rhe_ge)
    then have "(of_int (round_half_even (\<bar>b\<bar> / ?u)) :: real)
                 \<le> of_int (round_half_even (\<bar>r\<bar> / ?u))"
      by (simp only: of_int_le_iff)
    then have "of_int (round_half_even (\<bar>b\<bar> / ?u)) * ?u
                 \<le> of_int (round_half_even (\<bar>r\<bar> / ?u)) * ?u"
      using u by (simp only: mult_le_cancel_right_pos)
    then show ?thesis using b by (simp add: mag64_def)
  next
    case False
    with le have lt: "binade b < binade r" by simp
    then have n: "- 1022 < binade r" using binade_bounds(1) [OF neb] by linarith
    have "b < power_int 2 (binade b + 1)" using binade_bounds(2) [OF neb] assms(1) by simp
    also have "\<dots> \<le> power_int 2 (binade r)"
      using lt by (intro power_int_increasing) simp_all
    also have "\<dots> \<le> mag64 r" by (rule mag64_lower [OF ne]) (use n in simp)
    finally show ?thesis by simp
  qed
  then show ?thesis using pos by (simp add: round64_mag signed_inf_def)
qed

lemma round64_zero [simp]: "round64 0 = Fin 0"
  by (simp add: round64_def)

lemma py_neg_eq_Fin: "py_neg y = Fin a \<longleftrightarrow> y = Fin (- a)"
  by (cases y) auto

lemma round64_dyadic:
  assumes "\<bar>i\<bar> < 2 ^ 53" and "k \<le> 1074"
  shows "round64 (of_int i / 2 ^ k) = Fin (of_int i / 2 ^ k)"
proof -
  have pos: "round64 (of_int j / 2 ^ k) = Fin (of_int j / 2 ^ k)" if "0 < j" "j < 2 ^ 53" for j
  proof -
    let ?m = "of_int j / (2::real) ^ k"
    let ?E = "52 - int k"
    have m0: "0 < ?m" using that(1) by simp
    have "power_int (2::real) (?E - 52) = 1 / 2 ^ k"
      by (simp add: power_int_minus_divide)
    then have g: "?m = of_int j * power_int 2 (?E - 52)" by simp
    have e: "- 1022 \<le> ?E" using assms(2) by simp
    have "power_int (2::real) (?E + 1) = of_int (2 ^ 53) * power_int 2 (?E - 52)"
      by (rule pow2_53)
    moreover have "(of_int j :: real) < of_int (2 ^ 53)"
      using that(2) by (simp only: of_int_less_iff)
    ultimately have l: "?m < power_int 2 (?E + 1)"
      unfolding g by (simp only: mult_less_cancel_right_pos zero_less_power_int zero_less_numeral)
    have "?m \<le> of_int j" using that(1) by (simp add: divide_le_eq_1 field_simps)
    also have "(of_int j :: real) < of_int (2 ^ 53)" using that(2) by (simp only: of_int_less_iff)
    also have "(of_int (2 ^ 53) :: real) \<le> 2 ^ 1024" by simp
    finally have h: "?m < 2 ^ 1024" .
    from round64_grid [OF m0 g e l h] show ?thesis .
  qed
  consider "i = 0" | "0 < i" | "i < 0" by linarith
  then show ?thesis
  proof cases
    case 1
    then show ?thesis by simp
  next
    case 2
    with assms(1) show ?thesis by (intro pos) simp_all
  next
    case 3
    with assms(1) have "round64 (of_int (- i) / 2 ^ k) = Fin (of_int (- i) / 2 ^ k)"
      by (intro pos) simp_all
    then have "round64 (- (of_int i / 2 ^ k)) = Fin (- (of_int i / 2 ^ k))" by simp
    then show ?thesis by (simp add: round64_neg py_neg_eq_Fin)
  qed
qed

lemma round64_numeral:
  "(numeral w :: real) < 2 ^ 53 \<Longrightarrow> round64 (numeral w) = Fin (numeral w)"
  using round64_dyadic [of "numeral w" 0] by simp

lemma round64_one [simp]: "round64 1 = Fin 1"
  using round64_dyadic [of 1 0] by simp


lemma rhe_small:
  assumes "0 \<le> x" and "x < 1 / 2"
  shows "round_half_even x = 0"
proof -
  have "\<lfloor>x\<rfloor> = 0" using assms by (intro floor_unique) simp_all
  then show ?thesis using assms(2) by (simp add: round_half_even_def)
qed

lemma round64_underflow:
  assumes "\<bar>r\<bar> < 1 / 2 ^ 1075"
  shows "round64 r = Fin 0"
proof (cases "r = 0")
  case True
  then show ?thesis by simp
next
  case False
  have "(1::real) / 2 ^ 1075 \<le> power_int 2 (- 1022 + 1)"
    by (simp add: power_int_minus_divide)
  with assms have "\<bar>r\<bar> < power_int 2 (- 1022 + 1)" by linarith
  from binade_le [OF False this] binade_bounds(1) [OF False] have b: "binade r = - 1022"
    by simp
  have u: "power_int (2::real) (binade r - 52) = 1 / 2 ^ 1074"
    unfolding b by (simp add: power_int_minus_divide)
  have q: "\<bar>r\<bar> / (1 / 2 ^ 1074) < 1 / 2"
    using assms by (simp add: field_simps)
  have q0: "0 \<le> \<bar>r\<bar> / (1 / 2 ^ 1074)" by simp
  have "round_half_even (\<bar>r\<bar> / (1 / 2 ^ 1074)) = 0"
    by (rule rhe_small [OF q0 q])
  then have "mag64 r = 0"
    unfolding mag64_def u by (simp only: of_int_0 mult_zero_left)
  then show ?thesis using False by (simp add: round64_def)
qed

lemma round64_between:
  assumes "0 < b" and "round64 b = Fin b" and "b \<le> r" and "r \<le> 2 ^ k" and "k \<le> 1023"
  shows "\<exists>v. round64 r = Fin v \<and> b \<le> v \<and> v \<le> 2 ^ k"
proof -
  have "\<bar>r\<bar> \<le> 2 ^ k" using assms(1,3,4) by simp
  from round64_bound [OF this assms(5)] obtain v where v: "round64 r = Fin v" "\<bar>v\<bar> \<le> 2 ^ k"
    by blast
  from round64_ge [OF assms(1-3)] v(1) have "b \<le> v" by simp
  with v show ?thesis by auto
qed

subsection \<open>Floats the arithmetic produces\<close>

lemma representable_round64 [simp]: "representable (round64 r)"
  by (cases "round64 r") (simp_all add: representable_def round64_idem)

lemma representable_py_neg [simp]: "representable (py_neg x) = representable x"
  by (cases x) (simp_all add: representable_def round64_neg py_neg_eq_Fin)

lemma representable_py_add [simp]: "representable (py_add x y)"
  by (cases x; cases y) (simp_all add: representable_def [of PInf] representable_def [of NInf]
      representable_def [of NaN])

lemma representable_py_mul [simp]: "representable (py_mul x y)"
  by (cases x; cases y) (simp_all add: representable_def [of PInf] representable_def [of NInf]
      representable_def [of NaN] signed_inf_def)

lemma py_truediv_const: "c \<noteq> 0 \<Longrightarrow> py_truediv x (Fin c) = Inr (quot_const x c)"
  by (simp add: quot_const_def)

lemma quot_const_Fin: "c \<noteq> 0 \<Longrightarrow> quot_const (Fin a) c = round64 (a / c)"
  by (simp add: quot_const_def)

lemma representable_quot_const [simp]: "0 < c \<Longrightarrow> representable (quot_const x c)"
  by (cases x) (simp_all add: quot_const_def representable_def [of PInf]
      representable_def [of NInf] representable_def [of NaN] signed_inf_def)


lemma representable_float_of_str: "float_of_str tok = Inr x \<Longrightarrow> representable x"
  by (auto simp: float_of_str_def Let_def signed_inf_def representable_def [of PInf]
      representable_def [of NInf] representable_def [of NaN]
      split: if_splits option.splits prod.splits)

lemma py_mul_one: "representable y \<Longrightarrow> py_mul (Fin 1) y = y"
  by (cases y) (simp_all add: representable_def signed_inf_def)


lemma py_add_zero: "representable y \<Longrightarrow> py_add (Fin 0) y = y"
  by (cases y) (simp_all add: representable_def)

subsection \<open>Reading tokens\<close>

lemmas str_eval = str_split_def py_isspace_def float_of_str_def float_strip_def
  float_isspace_def is_digit_def parse_decimal_def parse_exponent_def digits_val_def
  digit_val_def ascii_lower_def signed_inf_def round64_numeral

lemma round64_half: "round64 (1 / 2) = Fin (1 / 2)"
  using round64_dyadic [of 1 1] by simp

lemma round64_5_half: "round64 (5 / 2) = Fin (5 / 2)"
  using round64_dyadic [of 5 1] by simp


text \<open>
  \<^verbatim>\<open>float\<close> on some literals: signs, fractions, exponents, underscores between digits,
  surrounding white space and the special values; and some texts it rejects.
\<close>

lemma float_of_str_accepts:
  "float_of_str ''-45'' = Inr (Fin (- 45))"
  "float_of_str ''+.5'' = Inr (Fin (1 / 2))"
  "float_of_str ''5.'' = Inr (Fin 5)"
  "float_of_str '' 2.5e1 '' = Inr (Fin 25)"
  "float_of_str ''1_000E-3'' = Inr (Fin 1)"
  "float_of_str ''-0'' = Inr (Fin 0)"
  "float_of_str ''-InF'' = Inr NInf"
  "float_of_str ''Infinity'' = Inr PInf"
  "float_of_str ''nan'' = Inr NaN"
  by (simp_all add: str_eval round64_half)

lemma float_of_str_rejects:
  "float_of_str [] = Inl ValueError"
  "float_of_str ''abc'' = Inl ValueError"
  "float_of_str ''.'' = Inl ValueError"
  "float_of_str ''1e'' = Inl ValueError"
  "float_of_str ''1__0'' = Inl ValueError"
  "float_of_str ''_1'' = Inl ValueError"
  "float_of_str ''1 2'' = Inl ValueError"
  "float_of_str ''--1'' = Inl ValueError"
  "float_of_str ''0x10'' = Inl ValueError"
  "float_of_str [CHR 0x1C, CHR ''1''] = Inl ValueError"
  by (simp_all add: str_eval)

lemma str_split_examples:
  "str_split ''  6   45 9 '' = [''6'', ''45'', ''9'']"
  "str_split [] = []"
  "str_split ''abc'' = [''abc'']"
  "str_split [CHR ''1'', CHR 0x1C, CHR ''2''] = [''1'', ''2'']"
  by (simp_all add: str_eval)

text \<open>
  Integer tokens, a literal that is finite and large, one that underflows to zero and
  one that overflows to infinity.
\<close>

lemma tok_0: "float_of_str ''0'' = Inr (Fin 0)"
  by (simp add: str_eval)

lemma tok_2e307: "float_of_str ''2e307'' = Inr (round64 (2 * 10 ^ 307))"
  by (simp add: str_eval)

lemma tok_m1em400: "float_of_str ''-1e-400'' = Inr (Fin 0)"
proof -
  have "float_of_str ''-1e-400'' = Inr (py_neg (round64 (1 / 10 ^ 400)))"
    by (simp add: str_eval)
  moreover have "round64 (1 / 10 ^ 400) = Fin 0"
    by (rule round64_underflow) simp
  ultimately show ?thesis by simp
qed

lemma tok_1e400: "float_of_str ''1e400'' = Inr PInf"
proof -
  have "float_of_str ''1e400'' = Inr (round64 (10 ^ 400))"
    by (simp add: str_eval)
  moreover have "round64 (10 ^ 400) = PInf"
    by (rule round64_overflow) simp
  ultimately show ?thesis by simp
qed

subsection \<open>The transform on tokens that parse\<close>

lemma unpack3_floats_three:
  assumes "float_of_str t1 = Inr a" and "float_of_str t2 = Inr b" and "float_of_str t3 = Inr c"
  shows "unpack3_floats [t1, t2, t3] = Inr (a, b, c)"
  using assms by (simp add: unpack3_floats_def)

lemma ra_degrees_eq: "ra_degrees h m s = Inr (py_mul (Fin 15) (sexagesimal h m s))"
  by (simp add: ra_degrees_def sexagesimal_def py_truediv_const del: py_truediv.simps)

lemma dec_degrees_eq:
  "dec_degrees d m s = Inr (py_mul (dec_sign d) (sexagesimal (py_abs d) m s))"
  by (simp add: dec_degrees_def sexagesimal_def py_truediv_const del: py_truediv.simps)

lemma math_cos_cases:
  "math_cos x = (if is_infinite x then Inl ValueError else Inr (cos_val x))"
  by (cases x) (simp_all add: is_infinite_def cos_val_def)

lemma math_sin_cases:
  "math_sin x = (if is_infinite x then Inl ValueError else Inr (sin_val x))"
  by (cases x) (simp_all add: is_infinite_def sin_val_def)

lemma spherical_to_xyz_cases:
  "spherical_to_xyz dst dec_rad ra_rad =
     (if is_infinite ra_rad \<or> is_infinite dec_rad then Inl ValueError
      else Inr (py_mul (py_mul dst (cos_val dec_rad)) (cos_val ra_rad),
                py_mul (py_mul dst (cos_val dec_rad)) (sin_val ra_rad),
                py_mul dst (sin_val dec_rad)))"
  by (simp add: spherical_to_xyz_def math_cos_cases math_sin_cases)

lemma ra_angle_radians:
  "ra_angle h m s = math_radians (py_mul (Fin 15) (sexagesimal h m s))"
  by (simp add: ra_angle_def math_radians_def)

lemma dec_angle_radians:
  "dec_angle d m s =
     math_radians
       (py_mul (if py_lt d (Fin 0) then Fin (- 1) else Fin 1) (sexagesimal (py_abs d) m s))"
  by (simp add: dec_angle_def math_radians_def)

lemma convert_to_cartesian_tokens:
  assumes "str_split ra = [th, tm, ts]"
    and "float_of_str th = Inr h" and "float_of_str tm = Inr m" and "float_of_str ts = Inr s"
    and "str_split dec = [ud, um, us]"
    and "float_of_str ud = Inr d" and "float_of_str um = Inr dm" and "float_of_str us = Inr ds"
  shows "convert_to_cartesian (Some ra) (Some dec) dst =
           spherical_to_xyz dst (dec_angle d dm ds) (ra_angle h m s)"
proof -
  have ra: "unpack3_floats (str_split ra) = Inr (h, m, s)"
    using assms(1-4) by (simp add: unpack3_floats_three)
  have dec: "unpack3_floats (str_split dec) = Inr (d, dm, ds)"
    using assms(5-8) by (simp add: unpack3_floats_three)
  show ?thesis
    unfolding convert_to_cartesian_def str_split_opt_def
    by (simp add: ra dec ra_degrees_eq dec_degrees_eq ra_angle_radians dec_angle_radians
        dec_sign_def)
qed

lemma deg_to_rad_bounds: "0 < deg_to_rad" "deg_to_rad \<le> 1"
  by (simp_all add: deg_to_rad_def)

lemma math_radians_PInf: "math_radians PInf = PInf"
  using deg_to_rad_bounds(1) by (simp add: math_radians_def signed_inf_def)

lemma sexagesimal_zero_minutes:
  assumes "representable (Fin v)"
  shows "sexagesimal (Fin v) (Fin 0) (Fin 0) = Fin v"
  using assms by (simp add: sexagesimal_def quot_const_Fin representable_def)

lemma ra_angle_overflow:
  assumes "representable (Fin v)" and "2 ^ 1024 \<le> 15 * v"
  shows "ra_angle (Fin v) (Fin 0) (Fin 0) = PInf"
  using assms(2)
  by (simp add: ra_angle_radians sexagesimal_zero_minutes [OF assms(1)] round64_overflow
      math_radians_PInf)

lemma convert_to_cartesian_ra_overflow:
  assumes "str_split ra = [th, tm, ts]"
    and "float_of_str th = Inr (Fin v)" and "2 ^ 1024 \<le> 15 * v"
    and "float_of_str tm = Inr (Fin 0)" and "float_of_str ts = Inr (Fin 0)"
    and "str_split dec = [ud, um, us]"
    and "float_of_str ud = Inr d" and "float_of_str um = Inr dm" and "float_of_str us = Inr ds"
  shows "convert_to_cartesian (Some ra) (Some dec) dst = Inl ValueError"
proof -
  have "representable (Fin v)" by (rule representable_float_of_str [OF assms(2)])
  from ra_angle_overflow [OF this assms(3)]
  show ?thesis
    by (simp add: convert_to_cartesian_tokens [OF assms(1,2,4-9)] spherical_to_xyz_cases
        is_infinite_def)
qed

lemma round64_3_1019: "round64 (3 * 2 ^ 1019) = Fin (3 * 2 ^ 1019)"
proof -
  have g: "(3::real) * 2 ^ 1019 = of_int (3 * 2 ^ 51) * power_int 2 (1020 - 52)"
    by simp
  have l: "(3::real) * 2 ^ 1019 < power_int 2 (1020 + 1)" by simp
  have h: "(3::real) * 2 ^ 1019 < 2 ^ 1024" by simp
  show ?thesis by (rule round64_grid [OF _ g _ l h]) simp_all
qed

lemma tok_2e307_value:
  "\<exists>v. float_of_str ''2e307'' = Inr (Fin v) \<and> 2 ^ 1024 \<le> 15 * v"
proof -
  have "\<exists>v. round64 (2 * 10 ^ 307) = Fin v \<and> 3 * 2 ^ 1019 \<le> v \<and> v \<le> 2 ^ 1021"
    by (rule round64_between [OF _ round64_3_1019]) simp_all
  then obtain v where v: "round64 (2 * 10 ^ 307) = Fin v" "3 * 2 ^ 1019 \<le> v" by blast
  have "(2::real) ^ 1024 \<le> 15 * (3 * 2 ^ 1019)" by simp
  with v(2) have "2 ^ 1024 \<le> 15 * v" by linarith
  with v(1) tok_2e307 show ?thesis by simp
qed

subsection \<open>Tokens of moderate size\<close>

lemma py_add_bound:
  assumes "\<bar>a\<bar> \<le> 2 ^ k" and "\<bar>b\<bar> \<le> 2 ^ k" and "k < 1023"
  shows "\<exists>v. py_add (Fin a) (Fin b) = Fin v \<and> \<bar>v\<bar> \<le> 2 ^ Suc k"
proof -
  have "\<bar>a + b\<bar> \<le> 2 ^ Suc k" using assms(1,2) by simp
  moreover have "Suc k \<le> 1023" using assms(3) by simp
  ultimately show ?thesis using round64_bound [of "a + b" "Suc k"] by simp
qed

lemma quot_const_bound:
  assumes "\<bar>a\<bar> \<le> 2 ^ k" and "k \<le> 1023" and "1 \<le> c"
  shows "\<exists>v. quot_const (Fin a) c = Fin v \<and> \<bar>v\<bar> \<le> 2 ^ k"
proof -
  have "\<bar>a\<bar> * 1 \<le> \<bar>a\<bar> * c" using assms(3) by (intro mult_left_mono) simp_all
  then have "\<bar>a / c\<bar> \<le> \<bar>a\<bar>" using assms(3) by (simp add: field_simps)
  with assms(1) have "\<bar>a / c\<bar> \<le> 2 ^ k" by linarith
  from round64_bound [OF this assms(2)] assms(3) show ?thesis
    by (simp add: quot_const_Fin)
qed

lemma sexagesimal_bound:
  assumes "\<bar>a\<bar> \<le> 2 ^ 997" and "\<bar>m\<bar> \<le> 2 ^ 997" and "\<bar>s\<bar> \<le> 2 ^ 997"
  shows "\<exists>v. sexagesimal (Fin a) (Fin m) (Fin s) = Fin v \<and> \<bar>v\<bar> \<le> 2 ^ 999"
proof -
  from quot_const_bound [OF assms(2), of 60] obtain q1
    where q1: "quot_const (Fin m) 60 = Fin q1" "\<bar>q1\<bar> \<le> 2 ^ 997" by auto
  from quot_const_bound [OF assms(3), of 3600] obtain q2
    where q2: "quot_const (Fin s) 3600 = Fin q2" "\<bar>q2\<bar> \<le> 2 ^ 997" by auto
  from py_add_bound [OF assms(1) q1(2)] obtain t
    where t: "py_add (Fin a) (Fin q1) = Fin t" "\<bar>t\<bar> \<le> 2 ^ Suc 997" by auto
  have "(2::real) ^ 997 \<le> 2 ^ Suc 997" by (intro power_increasing) simp_all
  with q2(2) have "\<bar>q2\<bar> \<le> 2 ^ Suc 997" by linarith
  from py_add_bound [OF t(2) this] obtain v
    where v: "py_add (Fin t) (Fin q2) = Fin v" "\<bar>v\<bar> \<le> 2 ^ Suc (Suc 997)" by auto
  have "Suc (Suc 997) = 999" by simp
  with v q1(1) q2(1) t(1) show ?thesis
    unfolding sexagesimal_def by (metis)
qed

lemma math_radians_bound:
  assumes "\<bar>w\<bar> \<le> 2 ^ k" and "k \<le> 1023"
  shows "\<exists>v. math_radians (Fin w) = Fin v"
proof -
  have "\<bar>w * deg_to_rad\<bar> \<le> \<bar>w\<bar>"
    using deg_to_rad_bounds by (simp add: abs_mult mult_left_le)
  with assms(1) have "\<bar>w * deg_to_rad\<bar> \<le> 2 ^ k" by linarith
  from round64_bound [OF this assms(2)] show ?thesis
    by (auto simp: math_radians_def)
qed

lemma ra_angle_finite:
  assumes "\<bar>h\<bar> \<le> 2 ^ 997" and "\<bar>m\<bar> \<le> 2 ^ 997" and "\<bar>s\<bar> \<le> 2 ^ 997"
  shows "\<exists>v. ra_angle (Fin h) (Fin m) (Fin s) = Fin v"
proof -
  from sexagesimal_bound [OF assms] obtain t
    where t: "sexagesimal (Fin h) (Fin m) (Fin s) = Fin t" "\<bar>t\<bar> \<le> 2 ^ 999" by blast
  have "\<bar>15 * t\<bar> \<le> 16 * 2 ^ 999" using t(2) by simp
  also have "(16::real) * 2 ^ 999 = 2 ^ 1003" by simp
  finally have "\<bar>15 * t\<bar> \<le> 2 ^ 1003" .
  from round64_bound [OF this] obtain w
    where w: "round64 (15 * t) = Fin w" "\<bar>w\<bar> \<le> 2 ^ 1003" by auto
  from math_radians_bound [OF w(2)] show ?thesis
    by (simp add: ra_angle_radians t(1) w(1))
qed

lemma dec_angle_finite:
  assumes "\<bar>d\<bar> \<le> 2 ^ 997" and "\<bar>m\<bar> \<le> 2 ^ 997" and "\<bar>s\<bar> \<le> 2 ^ 997"
  shows "\<exists>v. dec_angle (Fin d) (Fin m) (Fin s) = Fin v"
proof -
  have "\<bar>\<bar>d\<bar>\<bar> \<le> 2 ^ 997" using assms(1) by simp
  from sexagesimal_bound [OF this assms(2,3)] obtain t
    where t: "sexagesimal (Fin \<bar>d\<bar>) (Fin m) (Fin s) = Fin t" "\<bar>t\<bar> \<le> 2 ^ 999" by blast
  obtain c where c: "(if py_lt (Fin d) (Fin 0) then Fin (- 1) else Fin 1) = Fin c" "\<bar>c\<bar> = 1"
    by (cases "d < 0") simp_all
  have "\<bar>c * t\<bar> \<le> 2 ^ 999" using t(2) c(2) by (simp add: abs_mult)
  from round64_bound [OF this] obtain w
    where w: "round64 (c * t) = Fin w" "\<bar>w\<bar> \<le> 2 ^ 999" by auto
  have "dec_angle (Fin d) (Fin m) (Fin s) = math_radians (py_mul (Fin c) (Fin t))"
    unfolding dec_angle_radians c(1) using t(1) by simp
  with math_radians_bound [OF w(2)] show ?thesis
    by (simp add: w(1))
qed

lemma cos_val_bound: "\<exists>c. cos_val (Fin a) = Fin c \<and> \<bar>c\<bar> \<le> 1"
  using round64_bound [of "cos a" 0] by (simp add: cos_val_def)

lemma sin_val_bound: "\<exists>c. sin_val (Fin a) = Fin c \<and> \<bar>c\<bar> \<le> 1"
  using round64_bound [of "sin a" 0] by (simp add: sin_val_def)

lemma py_mul_unit_bound:
  assumes "\<bar>r\<bar> \<le> 2 ^ k" and "k \<le> 1023" and "\<bar>c\<bar> \<le> 1"
  shows "\<exists>v. py_mul (Fin r) (Fin c) = Fin v \<and> \<bar>v\<bar> \<le> 2 ^ k"
proof -
  have "\<bar>r * c\<bar> \<le> \<bar>r\<bar>" using assms(3) by (simp add: abs_mult mult_left_le)
  with assms(1) have "\<bar>r * c\<bar> \<le> 2 ^ k" by linarith
  from round64_bound [OF this assms(2)] show ?thesis by simp
qed

lemma pow10_300: "(10::real) ^ 300 \<le> 2 ^ 997"
  by simp

text \<open>
  Claim C1, as amended. For a right-ascension string and a declination string of three
  tokens each, all read by \<^verbatim>\<open>float\<close>, and any distance: with \<open>ra\<close> the float
  \<open>radians(15 * (h + m/60 + s/3600))\<close> and \<open>dec\<close> the float
  \<open>radians(sgn * (|d| + dm/60 + ds/3600))\<close>, \<open>sgn\<close> being \<open>-1\<close> when the degree token
  is below zero and \<open>1\<close> otherwise, \<open>convert_to_cartesian\<close> raises \<^verbatim>\<open>ValueError\<close> when
  one of the two angles is infinite and otherwise returns
  \<open>(distance * cos dec * cos ra, distance * cos dec * sin ra, distance * sin dec)\<close>,
  every operation being that of the floats.
\<close>

theorem convert_to_cartesian_formula:
  assumes "str_split ra = [th, tm, ts]"
    and "float_of_str th = Inr h" and "float_of_str tm = Inr m" and "float_of_str ts = Inr s"
    and "str_split dec = [ud, um, us]"
    and "float_of_str ud = Inr d" and "float_of_str um = Inr dm" and "float_of_str us = Inr ds"
  shows "convert_to_cartesian (Some ra) (Some dec) dst =
           (let ra_rad = ra_angle h m s; dec_rad = dec_angle d dm ds
            in if is_infinite ra_rad \<or> is_infinite dec_rad then Inl ValueError
               else Inr (py_mul (py_mul dst (cos_val dec_rad)) (cos_val ra_rad),
                         py_mul (py_mul dst (cos_val dec_rad)) (sin_val ra_rad),
                         py_mul dst (sin_val dec_rad)))"
  by (simp add: convert_to_cartesian_tokens [OF assms] spherical_to_xyz_cases Let_def)

theorem convert_to_cartesian_formula_witness:
  "str_split ''6 45 9'' = [''6'', ''45'', ''9'']
   \<and> float_of_str ''6'' = Inr (Fin 6) \<and> float_of_str ''45'' = Inr (Fin 45)
   \<and> float_of_str ''9'' = Inr (Fin 9)
   \<and> str_split ''-16 42 58'' = [''-16'', ''42'', ''58'']
   \<and> float_of_str ''-16'' = Inr (Fin (- 16)) \<and> float_of_str ''42'' = Inr (Fin 42)
   \<and> float_of_str ''58'' = Inr (Fin 58)
   \<and> \<not> is_infinite (ra_angle (Fin 6) (Fin 45) (Fin 9))
   \<and> \<not> is_infinite (dec_angle (Fin (- 16)) (Fin 42) (Fin 58))
   \<and> convert_to_cartesian (Some ''6 45 9'') (Some ''-16 42 58'') (Fin 2) =
       Inr (py_mul (py_mul (Fin 2) (cos_val (dec_angle (Fin (- 16)) (Fin 42) (Fin 58))))
              (cos_val (ra_angle (Fin 6) (Fin 45) (Fin 9))),
            py_mul (py_mul (Fin 2) (cos_val (dec_angle (Fin (- 16)) (Fin 42) (Fin 58))))
              (sin_val (ra_angle (Fin 6) (Fin 45) (Fin 9))),
            py_mul (Fin 2) (sin_val (dec_angle (Fin (- 16)) (Fin 42) (Fin 58))))"
proof -
  have s1: "str_split ''6 45 9'' = [''6'', ''45'', ''9'']" by (simp add: str_eval)
  have s2: "str_split ''-16 42 58'' = [''-16'', ''42'', ''58'']" by (simp add: str_eval)
  have t1: "float_of_str ''6'' = Inr (Fin 6)" by (simp add: str_eval)
  have t2: "float_of_str ''45'' = Inr (Fin 45)" by (simp add: str_eval)
  have t3: "float_of_str ''9'' = Inr (Fin 9)" by (simp add: str_eval)
  have t4: "float_of_str ''-16'' = Inr (Fin (- 16))" by (simp add: str_eval)
  have t5: "float_of_str ''42'' = Inr (Fin 42)" by (simp add: str_eval)
  have t6: "float_of_str ''58'' = Inr (Fin 58)" by (simp add: str_eval)
  have a: "\<not> is_infinite (ra_angle (Fin 6) (Fin 45) (Fin 9))"
    using ra_angle_finite [of 6 45 9] by (auto simp: is_infinite_def)
  have e: "\<not> is_infinite (dec_angle (Fin (- 16)) (Fin 42) (Fin 58))"
    using dec_angle_finite [of "- 16" 42 58] by (auto simp: is_infinite_def)
  from convert_to_cartesian_formula [OF s1 t1 t2 t3 s2 t4 t5 t6, of "Fin 2"] a e
  have "convert_to_cartesian (Some ''6 45 9'') (Some ''-16 42 58'') (Fin 2) =
       Inr (py_mul (py_mul (Fin 2) (cos_val (dec_angle (Fin (- 16)) (Fin 42) (Fin 58))))
              (cos_val (ra_angle (Fin 6) (Fin 45) (Fin 9))),
            py_mul (py_mul (Fin 2) (cos_val (dec_angle (Fin (- 16)) (Fin 42) (Fin 58))))
              (sin_val (ra_angle (Fin 6) (Fin 45) (Fin 9))),
            py_mul (Fin 2) (sin_val (dec_angle (Fin (- 16)) (Fin 42) (Fin 58))))"
    by (simp add: Let_def)
  with s1 s2 t1 t2 t3 t4 t5 t6 a e show ?thesis by blast
qed

text \<open>
  Claim C1 as stated fails: each token of \<^verbatim>\<open>"2e307 0 0"\<close> is read as a finite number,
  but fifteen times the hours overflows to infinity and \<^verbatim>\<open>math.cos\<close> raises, so the
  function returns no triple.
\<close>

theorem convert_to_cartesian_formula_counterexample:
  "str_split ''2e307 0 0'' = [''2e307'', ''0'', ''0'']
   \<and> reads_finite ''2e307'' \<and> reads_finite ''0''
   \<and> convert_to_cartesian (Some ''2e307 0 0'') (Some ''0 0 0'') (Fin 1) = Inl ValueError"
proof -
  have s1: "str_split ''2e307 0 0'' = [''2e307'', ''0'', ''0'']" by (simp add: str_eval)
  have s2: "str_split ''0 0 0'' = [''0'', ''0'', ''0'']" by (simp add: str_eval)
  from tok_2e307_value obtain v where v: "float_of_str ''2e307'' = Inr (Fin v)"
      "2 ^ 1024 \<le> 15 * v" by blast
  have f: "reads_finite ''2e307''" "reads_finite ''0''"
    by (simp_all add: reads_finite_def v(1) tok_0)
  from convert_to_cartesian_ra_overflow [OF s1 v tok_0 tok_0 s2 tok_0 tok_0 tok_0]
  have "convert_to_cartesian (Some ''2e307 0 0'') (Some ''0 0 0'') (Fin 1) = Inl ValueError" .
  with s1 f show ?thesis by blast
qed

text \<open>
  Claim C6. With right ascension \<^verbatim>\<open>"0 0 0"\<close>, declination \<^verbatim>\<open>"0 0 0"\<close> and distance 1,
  \<open>convert_to_cartesian\<close> returns exactly \<open>(1, 0, 0)\<close>.
\<close>

theorem convert_to_cartesian_origin:
  "convert_to_cartesian (Some ''0 0 0'') (Some ''0 0 0'') (Fin 1) = Inr (Fin 1, Fin 0, Fin 0)"
proof -
  have s: "str_split ''0 0 0'' = [''0'', ''0'', ''0'']" by (simp add: str_eval)
  have a: "ra_angle (Fin 0) (Fin 0) (Fin 0) = Fin 0"
    by (simp add: ra_angle_radians sexagesimal_def quot_const_Fin math_radians_def)
  have e: "dec_angle (Fin 0) (Fin 0) (Fin 0) = Fin 0"
    by (simp add: dec_angle_radians sexagesimal_def quot_const_Fin math_radians_def)
  show ?thesis
    by (simp add: convert_to_cartesian_tokens [OF s tok_0 tok_0 tok_0 s tok_0 tok_0 tok_0]
        spherical_to_xyz_cases a e is_infinite_def cos_val_def sin_val_def)
qed

subsection \<open>The sign of the declination\<close>









text \<open>
  Claim C9. A degree token written with a minus sign that reads as zero (such as
  \<^verbatim>\<open>-0\<close>, or a literal too small for a float such as \<^verbatim>\<open>-1e-400\<close>) is not below zero,
  so the sign is \<open>1\<close> and the written minus is dropped: the declination in degrees is
  \<open>dm/60 + ds/3600\<close>.
\<close>

theorem negative_zero_sign_dropped:
  assumes "str_split ra = [th, tm, ts]"
    and "float_of_str th = Inr h" and "float_of_str tm = Inr m" and "float_of_str ts = Inr s"
    and "str_split dec = [CHR ''-'' # digits, um, us]"
    and "float_of_str (CHR ''-'' # digits) = Inr (Fin 0)"
    and "float_of_str um = Inr dm" and "float_of_str us = Inr ds"
  shows "(let total = py_add (quot_const dm 60) (quot_const ds 3600)
          in dec_sign (Fin 0) = Fin 1
             \<and> dec_degrees (Fin 0) dm ds = Inr total
             \<and> convert_to_cartesian (Some ra) (Some dec) dst =
                 spherical_to_xyz dst (math_radians total) (ra_angle h m s))"
proof -
  let ?total = "py_add (quot_const dm 60) (quot_const ds 3600)"
  have sg: "dec_sign (Fin 0) = Fin 1" by (simp add: dec_sign_def)
  have sx: "sexagesimal (py_abs (Fin 0)) dm ds = ?total"
    by (simp add: sexagesimal_def py_add_zero)
  have deg: "dec_degrees (Fin 0) dm ds = Inr ?total"
    by (simp add: dec_degrees_eq sg sx py_mul_one del: py_abs.simps)
  have ang: "dec_angle (Fin 0) dm ds = math_radians ?total"
    by (simp add: dec_angle_radians sx py_mul_one del: py_abs.simps)
  have "convert_to_cartesian (Some ra) (Some dec) dst =
      spherical_to_xyz dst (math_radians ?total) (ra_angle h m s)"
    by (simp add: convert_to_cartesian_tokens [OF assms] ang)
  with sg deg show ?thesis unfolding Let_def by blast
qed

theorem negative_zero_sign_dropped_witness:
  "str_split ''6 45 9'' = [''6'', ''45'', ''9'']
   \<and> float_of_str ''6'' = Inr (Fin 6) \<and> float_of_str ''45'' = Inr (Fin 45)
   \<and> float_of_str ''9'' = Inr (Fin 9)
   \<and> str_split ''-0 30 0'' = [''-0'', ''30'', ''0'']
   \<and> float_of_str ''-0'' = Inr (Fin 0) \<and> float_of_str ''30'' = Inr (Fin 30)
   \<and> float_of_str ''0'' = Inr (Fin 0)
   \<and> dec_degrees (Fin 0) (Fin 30) (Fin 0) = Inr (Fin (1 / 2))
   \<and> convert_to_cartesian (Some ''6 45 9'') (Some ''-0 30 0'') (Fin 1) =
       spherical_to_xyz (Fin 1) (math_radians (Fin (1 / 2))) (ra_angle (Fin 6) (Fin 45) (Fin 9))"
proof -
  have s1: "str_split ''6 45 9'' = [''6'', ''45'', ''9'']" by (simp add: str_eval)
  have s2: "str_split ''-0 30 0'' = [''-0'', ''30'', ''0'']" by (simp add: str_eval)
  have t1: "float_of_str ''6'' = Inr (Fin 6)" by (simp add: str_eval)
  have t2: "float_of_str ''45'' = Inr (Fin 45)" by (simp add: str_eval)
  have t3: "float_of_str ''9'' = Inr (Fin 9)" by (simp add: str_eval)
  have t4: "float_of_str ''-0'' = Inr (Fin 0)" by (simp add: str_eval)
  have t5: "float_of_str ''30'' = Inr (Fin 30)" by (simp add: str_eval)
  have t6: "float_of_str ''0'' = Inr (Fin 0)" by (simp add: str_eval)
  have total: "py_add (quot_const (Fin 30) 60) (quot_const (Fin 0) 3600) = Fin (1 / 2)"
    by (simp add: quot_const_Fin round64_half)
  from negative_zero_sign_dropped [OF s1 t1 t2 t3 s2 t4 t5 t6, of "Fin 1"]
  have "dec_degrees (Fin 0) (Fin 30) (Fin 0) = Inr (Fin (1 / 2))
   \<and> convert_to_cartesian (Some ''6 45 9'') (Some ''-0 30 0'') (Fin 1) =
       spherical_to_xyz (Fin 1) (math_radians (Fin (1 / 2))) (ra_angle (Fin 6) (Fin 45) (Fin 9))"
    unfolding Let_def total by simp
  with s1 s2 t1 t2 t3 t4 t5 t6 show ?thesis by blast
qed

text \<open>
  Claim C8, as amended. For two angle strings of exactly three tokens, each read by
  \<^verbatim>\<open>float\<close> as a finite number of magnitude at most \<open>10^300\<close>, and any distance,
  \<open>convert_to_cartesian\<close> raises nothing and returns a triple; for a finite distance of
  magnitude at most \<open>10^300\<close> the three coordinates are finite. The function reads
  nothing but its three arguments, so equal arguments give equal results.
\<close>

theorem convert_to_cartesian_no_error:
  assumes "str_split ra = [th, tm, ts]"
    and "float_of_str th = Inr (Fin h)" and "float_of_str tm = Inr (Fin m)"
    and "float_of_str ts = Inr (Fin s)"
    and "str_split dec = [ud, um, us]"
    and "float_of_str ud = Inr (Fin d)" and "float_of_str um = Inr (Fin dm)"
    and "float_of_str us = Inr (Fin ds)"
    and "\<bar>h\<bar> \<le> 10 ^ 300" and "\<bar>m\<bar> \<le> 10 ^ 300" and "\<bar>s\<bar> \<le> 10 ^ 300"
    and "\<bar>d\<bar> \<le> 10 ^ 300" and "\<bar>dm\<bar> \<le> 10 ^ 300" and "\<bar>ds\<bar> \<le> 10 ^ 300"
  shows "(\<exists>x y z. convert_to_cartesian (Some ra) (Some dec) dst = Inr (x, y, z))
         \<and> (\<bar>r\<bar> \<le> 10 ^ 300 \<longrightarrow>
              (\<exists>x y z. convert_to_cartesian (Some ra) (Some dec) (Fin r)
                         = Inr (Fin x, Fin y, Fin z)))"
proof -
  have b: "\<bar>h\<bar> \<le> 2 ^ 997" "\<bar>m\<bar> \<le> 2 ^ 997" "\<bar>s\<bar> \<le> 2 ^ 997"
      "\<bar>d\<bar> \<le> 2 ^ 997" "\<bar>dm\<bar> \<le> 2 ^ 997" "\<bar>ds\<bar> \<le> 2 ^ 997"
    using assms(9-14) pow10_300 by linarith+
  from ra_angle_finite [OF b(1-3)] obtain a where a: "ra_angle (Fin h) (Fin m) (Fin s) = Fin a"
    by blast
  from dec_angle_finite [OF b(4-6)] obtain e where e: "dec_angle (Fin d) (Fin dm) (Fin ds) = Fin e"
    by blast
  have conv: "convert_to_cartesian (Some ra) (Some dec) q =
      Inr (py_mul (py_mul q (cos_val (Fin e))) (cos_val (Fin a)),
           py_mul (py_mul q (cos_val (Fin e))) (sin_val (Fin a)),
           py_mul q (sin_val (Fin e)))" for q
    by (simp add: convert_to_cartesian_tokens [OF assms(1-8)] spherical_to_xyz_cases a e
        is_infinite_def)
  have fin: "\<exists>x y z. convert_to_cartesian (Some ra) (Some dec) (Fin r)
                         = Inr (Fin x, Fin y, Fin z)" if "\<bar>r\<bar> \<le> 10 ^ 300"
  proof -
    have r: "\<bar>r\<bar> \<le> 2 ^ 997" using that pow10_300 by linarith
    obtain ce where ce: "cos_val (Fin e) = Fin ce" "\<bar>ce\<bar> \<le> 1" using cos_val_bound by blast
    obtain se where se: "sin_val (Fin e) = Fin se" "\<bar>se\<bar> \<le> 1" using sin_val_bound by blast
    obtain ca where ca: "cos_val (Fin a) = Fin ca" "\<bar>ca\<bar> \<le> 1" using cos_val_bound by blast
    obtain sa where sa: "sin_val (Fin a) = Fin sa" "\<bar>sa\<bar> \<le> 1" using sin_val_bound by blast
    from py_mul_unit_bound [OF r _ ce(2)] obtain p
      where p: "py_mul (Fin r) (Fin ce) = Fin p" "\<bar>p\<bar> \<le> 2 ^ 997" by auto
    from py_mul_unit_bound [OF p(2) _ ca(2)] obtain x
      where x: "py_mul (Fin p) (Fin ca) = Fin x" by auto
    from py_mul_unit_bound [OF p(2) _ sa(2)] obtain y
      where y: "py_mul (Fin p) (Fin sa) = Fin y" by auto
    from py_mul_unit_bound [OF r _ se(2)] obtain z
      where z: "py_mul (Fin r) (Fin se) = Fin z" by auto
    show ?thesis
      unfolding conv ce(1) se(1) ca(1) sa(1) p(1) x y z by blast
  qed
  from conv fin show ?thesis by blast
qed

theorem convert_to_cartesian_no_error_witness:
  "str_split ''6 45 9'' = [''6'', ''45'', ''9'']
   \<and> float_of_str ''6'' = Inr (Fin 6) \<and> float_of_str ''45'' = Inr (Fin 45)
   \<and> float_of_str ''9'' = Inr (Fin 9)
   \<and> str_split ''-16 42 58'' = [''-16'', ''42'', ''58'']
   \<and> float_of_str ''-16'' = Inr (Fin (- 16)) \<and> float_of_str ''42'' = Inr (Fin 42)
   \<and> float_of_str ''58'' = Inr (Fin 58)
   \<and> (\<exists>x y z. convert_to_cartesian (Some ''6 45 9'') (Some ''-16 42 58'') PInf = Inr (x, y, z))
   \<and> (\<exists>x y z. convert_to_cartesian (Some ''6 45 9'') (Some ''-16 42 58'') (Fin 2)
               = Inr (Fin x, Fin y, Fin z))"
proof -
  have s1: "str_split ''6 45 9'' = [''6'', ''45'', ''9'']" by (simp add: str_eval)
  have s2: "str_split ''-16 42 58'' = [''-16'', ''42'', ''58'']" by (simp add: str_eval)
  have t1: "float_of_str ''6'' = Inr (Fin 6)" by (simp add: str_eval)
  have t2: "float_of_str ''45'' = Inr (Fin 45)" by (simp add: str_eval)
  have t3: "float_of_str ''9'' = Inr (Fin 9)" by (simp add: str_eval)
  have t4: "float_of_str ''-16'' = Inr (Fin (- 16))" by (simp add: str_eval)
  have t5: "float_of_str ''42'' = Inr (Fin 42)" by (simp add: str_eval)
  have t6: "float_of_str ''58'' = Inr (Fin 58)" by (simp add: str_eval)
  have b: "\<bar>6::real\<bar> \<le> 10 ^ 300" "\<bar>45::real\<bar> \<le> 10 ^ 300" "\<bar>9::real\<bar> \<le> 10 ^ 300"
      "\<bar>- 16::real\<bar> \<le> 10 ^ 300" "\<bar>42::real\<bar> \<le> 10 ^ 300" "\<bar>58::real\<bar> \<le> 10 ^ 300"
      "\<bar>2::real\<bar> \<le> 10 ^ 300"
    by simp_all
  note w1 = convert_to_cartesian_no_error [OF s1 t1 t2 t3 s2 t4 t5 t6 b(1-6), of PInf 2]
  with b(7) s1 s2 t1 t2 t3 t4 t5 t6 show ?thesis by blast
qed

lemma round64_2_1022: "round64 (2 ^ 1022) = Fin (2 ^ 1022)"
proof -
  have g: "(2::real) ^ 1022 = of_int (2 ^ 52) * power_int 2 (1022 - 52)"
    by simp
  have l: "(2::real) ^ 1022 < power_int 2 (1022 + 1)" by simp
  have h: "(2::real) ^ 1022 < 2 ^ 1024" by simp
  show ?thesis by (rule round64_grid [OF _ g _ l h]) simp_all
qed

lemma tok_5e307_value:
  "\<exists>v. float_of_str ''5e307'' = Inr (Fin v) \<and> 2 ^ 1024 \<le> 15 * v"
proof -
  have t: "float_of_str ''5e307'' = Inr (round64 (5 * 10 ^ 307))" by (simp add: str_eval)
  have "\<exists>v. round64 (5 * 10 ^ 307) = Fin v \<and> 2 ^ 1022 \<le> v \<and> v \<le> 2 ^ 1023"
    by (rule round64_between [OF _ round64_2_1022]) simp_all
  then obtain v where v: "round64 (5 * 10 ^ 307) = Fin v" "2 ^ 1022 \<le> v" by blast
  have "(2::real) ^ 1024 \<le> 15 * 2 ^ 1022" by simp
  with v(2) have "2 ^ 1024 \<le> 15 * v" by linarith
  with v(1) t show ?thesis by simp
qed

text \<open>
  Claim C8 as stated fails: the tokens of \<^verbatim>\<open>"5e307 0 0"\<close> and \<^verbatim>\<open>"10 20 30"\<close> are
  read as finite numbers and the distance is 1, but the right ascension in degrees
  overflows to infinity and \<^verbatim>\<open>math.cos\<close> raises \<^verbatim>\<open>ValueError\<close>.
\<close>

theorem convert_to_cartesian_no_error_counterexample:
  "str_split ''5e307 0 0'' = [''5e307'', ''0'', ''0'']
   \<and> str_split ''10 20 30'' = [''10'', ''20'', ''30'']
   \<and> reads_finite ''5e307'' \<and> reads_finite ''0'' \<and> reads_finite ''10''
   \<and> reads_finite ''20'' \<and> reads_finite ''30''
   \<and> convert_to_cartesian (Some ''5e307 0 0'') (Some ''10 20 30'') (Fin 1) = Inl ValueError"
proof -
  have s1: "str_split ''5e307 0 0'' = [''5e307'', ''0'', ''0'']" by (simp add: str_eval)
  have s2: "str_split ''10 20 30'' = [''10'', ''20'', ''30'']" by (simp add: str_eval)
  have t1: "float_of_str ''10'' = Inr (Fin 10)" by (simp add: str_eval)
  have t2: "float_of_str ''20'' = Inr (Fin 20)" by (simp add: str_eval)
  have t3: "float_of_str ''30'' = Inr (Fin 30)" by (simp add: str_eval)
  from tok_5e307_value obtain v where v: "float_of_str ''5e307'' = Inr (Fin v)"
      "2 ^ 1024 \<le> 15 * v" by blast
  have f: "reads_finite ''5e307''" "reads_finite ''0''" "reads_finite ''10''"
      "reads_finite ''20''" "reads_finite ''30''"
    by (simp_all add: reads_finite_def v(1) tok_0 t1 t2 t3)
  from convert_to_cartesian_ra_overflow [OF s1 v tok_0 tok_0 s2 t1 t2 t3]
  have "convert_to_cartesian (Some ''5e307 0 0'') (Some ''10 20 30'') (Fin 1) = Inl ValueError" .
  with s1 s2 f show ?thesis by blast
qed

text \<open>
  The tokens \<^verbatim>\<open>inf\<close> and \<^verbatim>\<open>nan\<close> are read by \<^verbatim>\<open>float\<close> too: an infinite angle makes
  \<^verbatim>\<open>math.cos\<close> raise.
\<close>

lemma convert_to_cartesian_inf_token:
  "convert_to_cartesian (Some ''inf 0 0'') (Some ''0 0 0'') (Fin 1) = Inl ValueError"
proof -
  have s1: "str_split ''inf 0 0'' = [''inf'', ''0'', ''0'']" by (simp add: str_eval)
  have s2: "str_split ''0 0 0'' = [''0'', ''0'', ''0'']" by (simp add: str_eval)
  have t: "float_of_str ''inf'' = Inr PInf" by (simp add: str_eval)
  have "ra_angle PInf (Fin 0) (Fin 0) = PInf"
    by (simp add: ra_angle_radians sexagesimal_def quot_const_Fin signed_inf_def math_radians_PInf)
  then show ?thesis
    by (simp add: convert_to_cartesian_tokens [OF s1 t tok_0 tok_0 s2 tok_0 tok_0 tok_0]
        spherical_to_xyz_cases is_infinite_def)
qed


subsection \<open>The loader\<close>

lemmas fs_eval = example_fs_def example_files_def endswith_def os_path_join_def
  find_elem_def find_text_def sirius_xml_def vega_xml_def noname_xml_def emptyname_xml_def
  badra_xml_def baddist_xml_def main_window_init_def

lemma load_files_Cons:
  "load_files fs (f # files) w =
     (let w1 = (case valid_descriptor fs (xml_folder w) f of
                  None \<Rightarrow> w
                | Some d \<Rightarrow> w\<lparr>constelaciones := constelaciones w @ [d]\<rparr>);
          (w2, out2) = load_files fs files w1
      in (w2, skip_log fs (xml_folder w) f @ out2))"
  by (simp add: valid_descriptor_def skip_log_def get_name_from_xml_def Let_def
      split: sum.splits option.splits prod.splits)

lemma load_files_spec:
  "load_files fs files w =
     (w\<lparr>constelaciones := constelaciones w @
           List.map_filter (valid_descriptor fs (xml_folder w)) files\<rparr>,
      concat (map (skip_log fs (xml_folder w)) files))"
proof (induction files arbitrary: w)
  case Nil
  show ?case by simp
next
  case (Cons f files)
  show ?case
  proof (cases "valid_descriptor fs (xml_folder w) f")
    case None
    then show ?thesis
      by (simp add: load_files_Cons Cons.IH del: load_files.simps)
  next
    case (Some d)
    then show ?thesis
      by (simp add: load_files_Cons Cons.IH del: load_files.simps)
  qed
qed

text \<open>
  Claim C4, as amended. When the directory can be listed, \<open>load_constellations\<close> appends
  exactly one descriptor, in the order of the listing, for every entry whose name ends
  in \<^verbatim>\<open>.xml\<close>, that parses, and whose root has a first \<^verbatim>\<open>name\<close> child with a text
  that is not empty; every other entry is skipped and the loop goes on to the rest.
  An entry that fails to parse or has no \<^verbatim>\<open>name\<close> child prints one line.
\<close>

theorem load_constellations_descriptors:
  assumes "os_listdir fs (xml_folder w) = Inr files"
  shows "load_constellations fs w =
           Inr (w\<lparr>constelaciones := constelaciones w @
                     List.map_filter (valid_descriptor fs (xml_folder w)) files\<rparr>,
                concat (map (skip_log fs (xml_folder w)) files))"
  using assms by (simp add: load_constellations_def load_files_spec)

theorem load_constellations_descriptors_witness:
  "os_listdir example_fs (xml_folder (main_window_init ''systems'')) =
     Inr [''sirius.xml'', ''broken.xml'', ''notes.txt'', ''vega.xml'', ''noname.xml'']
   \<and> load_constellations example_fs (main_window_init ''systems'') =
       Inr (\<lparr>xml_folder = ''systems'',
             constelaciones = [\<lparr>name = ''Sirius'', path = ''systems/sirius.xml''\<rparr>,
                               \<lparr>name = ''Vega'', path = ''systems/vega.xml''\<rparr>],
             buttons = [], button_layout = []\<rparr>,
            [ErrorReading ''systems/broken.xml'' ParseError,
             NoNameTag ''systems/noname.xml''])"
proof -
  have h: "os_listdir example_fs (xml_folder (main_window_init ''systems'')) =
     Inr [''sirius.xml'', ''broken.xml'', ''notes.txt'', ''vega.xml'', ''noname.xml'']"
    by (simp add: fs_eval)
  from load_constellations_descriptors [OF h]
  have "load_constellations example_fs (main_window_init ''systems'') =
       Inr (\<lparr>xml_folder = ''systems'',
             constelaciones = [\<lparr>name = ''Sirius'', path = ''systems/sirius.xml''\<rparr>,
                               \<lparr>name = ''Vega'', path = ''systems/vega.xml''\<rparr>],
             buttons = [], button_layout = []\<rparr>,
            [ErrorReading ''systems/broken.xml'' ParseError,
             NoNameTag ''systems/noname.xml''])"
    by (simp add: fs_eval valid_descriptor_def skip_log_def)
  with h show ?thesis by blast
qed

text \<open>
  Claim C4 as stated fails: a file whose name ends in \<^verbatim>\<open>.xml\<close> and whose root has a
  \<^verbatim>\<open>name\<close> element without text yields no descriptor, and nothing is printed for it.
\<close>

theorem load_constellations_empty_name_counterexample:
  "endswith ''emptyname.xml'' ''.xml''
   \<and> os_listdir example_fs ''unnamed'' = Inr [''emptyname.xml'']
   \<and> et_parse example_fs (os_path_join ''unnamed'' ''emptyname.xml'') = Inr emptyname_xml
   \<and> find_elem emptyname_xml ''name'' = Some (Element ''name'' None [])
   \<and> load_constellations example_fs (main_window_init ''unnamed'') =
       Inr (\<lparr>xml_folder = ''unnamed'', constelaciones = [], buttons = [], button_layout = []\<rparr>,
            [])"
  by (simp add: fs_eval load_constellations_def get_name_from_xml_def)

text \<open>
  \<open>generate_buttons\<close> adds one button per descriptor, in order, and leaves the
  descriptors as they are.
\<close>

lemma add_buttons_spec:
  "buttons (add_buttons ds w) =
     buttons w @ map (\<lambda>d. \<lparr>button_text = name d, click_path = path d\<rparr>) ds
   \<and> button_layout (add_buttons ds w) =
     button_layout w @ map (\<lambda>d. \<lparr>button_text = name d, click_path = path d\<rparr>) ds
   \<and> constelaciones (add_buttons ds w) = constelaciones w"
  by (induction ds arbitrary: w) (simp_all add: Let_def)

lemma valid_descriptor_get_name:
  "valid_descriptor fs folder f =
     (if endswith f ''.xml'' then
        (case fst (get_name_from_xml fs (os_path_join folder f)) of
           None \<Rightarrow> None
         | Some n \<Rightarrow> if n = [] then None else Some \<lparr>name = n, path = os_path_join folder f\<rparr>)
      else None)"
  by (simp add: valid_descriptor_def get_name_from_xml_def split: sum.splits option.splits)

text \<open>
  Claim C7. For a directory that can be listed and in which no entry ending in
  \<^verbatim>\<open>.xml\<close> yields a name (the name is \<^verbatim>\<open>None\<close> or empty), \<open>load_constellations\<close> on
  the freshly initialised window returns without raising and leaves
  \<open>constelaciones\<close> empty, and \<open>generate_buttons\<close> then creates no button.
\<close>

theorem no_valid_files_no_buttons:
  assumes "os_listdir fs folder = Inr files"
    and "\<forall>f \<in> set files. endswith f ''.xml'' \<longrightarrow>
           fst (get_name_from_xml fs (os_path_join folder f)) \<in> {None, Some []}"
  shows "\<exists>w out. load_constellations fs (main_window_init folder) = Inr (w, out)
           \<and> constelaciones w = []
           \<and> buttons (generate_buttons w) = []
           \<and> button_layout (generate_buttons w) = []"
proof -
  have none: "valid_descriptor fs folder f = None" if "f \<in> set files" for f
    using assms(2) that by (auto simp: valid_descriptor_get_name split: option.splits)
  have "List.map_filter (valid_descriptor fs folder) files = []"
    using none by (simp add: List.map_filter_def filter_empty_conv)
  then show ?thesis
    using assms(1)
    by (simp add: load_constellations_def load_files_spec main_window_init_def
        generate_buttons_def)
qed

theorem no_valid_files_no_buttons_witness:
  "os_listdir example_fs ''junk'' = Inr [''notes.txt'', ''broken.xml'', ''noname.xml'']
   \<and> \<not> endswith ''notes.txt'' ''.xml''
   \<and> fst (get_name_from_xml example_fs (os_path_join ''junk'' ''broken.xml'')) = None
   \<and> fst (get_name_from_xml example_fs (os_path_join ''junk'' ''noname.xml'')) = None
   \<and> (\<exists>w out. load_constellations example_fs (main_window_init ''junk'') = Inr (w, out)
           \<and> constelaciones w = []
           \<and> buttons (generate_buttons w) = []
           \<and> button_layout (generate_buttons w) = [])"
proof -
  have h1: "os_listdir example_fs ''junk'' = Inr [''notes.txt'', ''broken.xml'', ''noname.xml'']"
    by (simp add: fs_eval)
  have a: "\<not> endswith ''notes.txt'' ''.xml''" by (simp add: fs_eval)
  have b: "fst (get_name_from_xml example_fs (os_path_join ''junk'' ''broken.xml'')) = None"
    by (simp add: fs_eval get_name_from_xml_def)
  have c: "fst (get_name_from_xml example_fs (os_path_join ''junk'' ''noname.xml'')) = None"
    by (simp add: fs_eval get_name_from_xml_def)
  have h2: "\<forall>f \<in> set [''notes.txt'', ''broken.xml'', ''noname.xml''].
              endswith f ''.xml'' \<longrightarrow>
              fst (get_name_from_xml example_fs (os_path_join ''junk'' f)) \<in> {None, Some []}"
    using a b c by simp
  from no_valid_files_no_buttons [OF h1 h2] h1 a b c show ?thesis by blast
qed


subsection \<open>Extracting the star of a file\<close>

text \<open>\<open>find_elem\<close> returns the first child with the tag, whatever follows it.\<close>

lemma find_first:
  "List.find P xs = Some e \<longleftrightarrow>
     (\<exists>before after. xs = before @ e # after \<and> P e \<and> (\<forall>c \<in> set before. \<not> P c))"
proof (induction xs)
  case Nil
  show ?case by simp
next
  case (Cons x xs)
  show ?case
  proof (cases "P x")
    case True
    have "(\<exists>before after. x # xs = before @ e # after \<and> P e \<and> (\<forall>c \<in> set before. \<not> P c))
            \<longleftrightarrow> x = e"
    proof
      assume "\<exists>before after. x # xs = before @ e # after \<and> P e \<and> (\<forall>c \<in> set before. \<not> P c)"
      then obtain before after where b: "x # xs = before @ e # after"
          "\<forall>c \<in> set before. \<not> P c" by blast
      show "x = e"
      proof (cases before)
        case Nil
        with b(1) show ?thesis by simp
      next
        case (Cons y ys)
        with b True show ?thesis by simp
      qed
    next
      assume "x = e"
      with True have "x # xs = [] @ e # xs \<and> P e \<and> (\<forall>c \<in> set []. \<not> P c)" by simp
      then show "\<exists>before after. x # xs = before @ e # after \<and> P e \<and> (\<forall>c \<in> set before. \<not> P c)"
        by blast
    qed
    with True show ?thesis by simp
  next
    case False
    have "(\<exists>before after. x # xs = before @ e # after \<and> P e \<and> (\<forall>c \<in> set before. \<not> P c))
            \<longleftrightarrow> (\<exists>before after. xs = before @ e # after \<and> P e \<and> (\<forall>c \<in> set before. \<not> P c))"
    proof
      assume "\<exists>before after. x # xs = before @ e # after \<and> P e \<and> (\<forall>c \<in> set before. \<not> P c)"
      then obtain before after where b: "x # xs = before @ e # after" "P e"
          "\<forall>c \<in> set before. \<not> P c" by blast
      show "\<exists>before after. xs = before @ e # after \<and> P e \<and> (\<forall>c \<in> set before. \<not> P c)"
      proof (cases before)
        case Nil
        with b False show ?thesis by simp
      next
        case (Cons y ys)
        with b have "xs = ys @ e # after \<and> P e \<and> (\<forall>c \<in> set ys. \<not> P c)" by simp
        then show ?thesis by blast
      qed
    next
      assume "\<exists>before after. xs = before @ e # after \<and> P e \<and> (\<forall>c \<in> set before. \<not> P c)"
      then obtain before after where "xs = before @ e # after" "P e"
          "\<forall>c \<in> set before. \<not> P c" by blast
      with False have "x # xs = (x # before) @ e # after \<and> P e
          \<and> (\<forall>c \<in> set (x # before). \<not> P c)" by simp
      then show "\<exists>before after. x # xs = before @ e # after \<and> P e \<and> (\<forall>c \<in> set before. \<not> P c)"
        by blast
    qed
    with False Cons.IH show ?thesis by simp
  qed
qed

lemma find_elem_first:
  "find_elem xml_root t = Some e \<longleftrightarrow>
     (\<exists>before after. elem_children xml_root = before @ e # after \<and> elem_tag e = t
        \<and> (\<forall>c \<in> set before. elem_tag c \<noteq> t))"
  unfolding find_elem_def by (rule find_first)

lemma find_Some_append: "List.find P xs = Some e \<Longrightarrow> List.find P (xs @ ys) = Some e"
  by (induction xs) (auto split: if_splits)

lemma find_elem_more:
  "find_elem xml_root t = Some e \<Longrightarrow> find_elem (with_more_children xml_root extra) t = Some e"
  by (simp add: find_elem_def with_more_children_def find_Some_append)

lemma find_text_more:
  "find_text xml_root t = Inr x \<Longrightarrow> find_text (with_more_children xml_root extra) t = Inr x"
  by (auto simp: find_text_def find_elem_more split: option.splits)

lemma extract_body_Inr:
  "extract_body fs p = Inr c \<longleftrightarrow>
     (\<exists>xml_root e1 e2 e3 e4 v.
        et_parse fs p = Inr xml_root
        \<and> find_elem xml_root ''name'' = Some e1
        \<and> find_elem xml_root ''rightascension'' = Some e2
        \<and> find_elem xml_root ''declination'' = Some e3
        \<and> find_elem xml_root ''distance'' = Some e4
        \<and> py_float (elem_text e4) = Inr v
        \<and> c = [\<lparr>star_name = elem_text e1, rightascension = elem_text e2,
                 declination = elem_text e3, distance = v\<rparr>])"
  by (auto simp: extract_body_def find_text_def and_then_def split: sum.splits option.splits)

text \<open>
  Claim C10. Whenever \<open>extract_constellation_data\<close> returns a list, the list holds
  exactly one star record, built from the first \<^verbatim>\<open>name\<close>, \<^verbatim>\<open>rightascension\<close>,
  \<^verbatim>\<open>declination\<close> and \<^verbatim>\<open>distance\<close> children of the root, and nothing is printed;
  the same file with any further children appended gives the same result, so further
  star entries are ignored.
\<close>

theorem extract_single_star:
  assumes "extract_constellation_data fs xml_path = (Some c, out)"
  shows "\<exists>xml_root e1 e2 e3 e4 v.
           et_parse fs xml_path = Inr xml_root
           \<and> find_elem xml_root ''name'' = Some e1
           \<and> find_elem xml_root ''rightascension'' = Some e2
           \<and> find_elem xml_root ''declination'' = Some e3
           \<and> find_elem xml_root ''distance'' = Some e4
           \<and> py_float (elem_text e4) = Inr v
           \<and> c = [\<lparr>star_name = elem_text e1, rightascension = elem_text e2,
                    declination = elem_text e3, distance = v\<rparr>]
           \<and> out = []
           \<and> (\<forall>extra. extract_constellation_data
                        (with_file fs xml_path (with_more_children xml_root extra)) xml_path
                      = (Some c, out))"
proof -
  from assms have body: "extract_body fs xml_path = Inr c" and out: "out = []"
    by (auto simp: extract_constellation_data_def split: sum.splits)
  from body obtain xml_root e1 e2 e3 e4 v where r:
      "et_parse fs xml_path = Inr xml_root"
      "find_elem xml_root ''name'' = Some e1"
      "find_elem xml_root ''rightascension'' = Some e2"
      "find_elem xml_root ''declination'' = Some e3"
      "find_elem xml_root ''distance'' = Some e4"
      "py_float (elem_text e4) = Inr v"
      "c = [\<lparr>star_name = elem_text e1, rightascension = elem_text e2,
             declination = elem_text e3, distance = v\<rparr>]"
    unfolding extract_body_Inr by blast
  have "extract_body (with_file fs xml_path (with_more_children xml_root extra)) xml_path = Inr c"
    for extra
    unfolding extract_body_Inr
    using r(2-7) by (auto simp: with_file_def find_elem_more)
  then have "extract_constellation_data
               (with_file fs xml_path (with_more_children xml_root extra)) xml_path = (Some c, out)"
    for extra
    by (simp add: extract_constellation_data_def out)
  with r out show ?thesis by blast
qed

theorem extract_single_star_witness:
  "extract_constellation_data example_fs ''systems/sirius.xml'' =
     (Some [\<lparr>star_name = Some ''Sirius'', rightascension = Some ''6 45 9'',
             declination = Some ''-16 42 58'', distance = Fin (5 / 2)\<rparr>], [])
   \<and> extract_constellation_data
       (with_file example_fs ''systems/sirius.xml''
          (with_more_children sirius_xml
             [Element ''name'' (Some ''Canopus'') [], Element ''distance'' (Some ''95'') []]))
       ''systems/sirius.xml'' =
     (Some [\<lparr>star_name = Some ''Sirius'', rightascension = Some ''6 45 9'',
             declination = Some ''-16 42 58'', distance = Fin (5 / 2)\<rparr>], [])"
proof -
  have h: "extract_constellation_data example_fs ''systems/sirius.xml'' =
     (Some [\<lparr>star_name = Some ''Sirius'', rightascension = Some ''6 45 9'',
             declination = Some ''-16 42 58'', distance = Fin (5 / 2)\<rparr>], [])"
    by (simp add: extract_constellation_data_def extract_body_def fs_eval py_float_def str_eval
        round64_5_half)
  have p: "et_parse example_fs ''systems/sirius.xml'' = Inr sirius_xml"
    by (simp add: example_fs_def example_files_def)
  from extract_single_star [OF h] p
  have "extract_constellation_data
       (with_file example_fs ''systems/sirius.xml''
          (with_more_children sirius_xml
             [Element ''name'' (Some ''Canopus'') [], Element ''distance'' (Some ''95'') []]))
       ''systems/sirius.xml'' =
     (Some [\<lparr>star_name = Some ''Sirius'', rightascension = Some ''6 45 9'',
             declination = Some ''-16 42 58'', distance = Fin (5 / 2)\<rparr>], [])"
    by auto
  with h show ?thesis by blast
qed


lemma extract_body_missing:
  assumes "et_parse fs p = Inr xml_root" and "t \<in> set star_fields"
    and "find_elem xml_root t = None"
  shows "extract_body fs p = Inl AttributeError"
  using assms
  by (auto simp: extract_body_def find_text_def star_fields_def and_then_def
      split: option.splits sum.splits)

lemma extract_body_bad_distance:
  assumes "et_parse fs p = Inr xml_root"
    and "list_all (\<lambda>t. find_elem xml_root t \<noteq> None) star_fields"
    and "find_elem xml_root ''distance'' = Some ed" and "py_float (elem_text ed) = Inl e"
  shows "extract_body fs p = Inl e"
  using assms
  by (auto simp: extract_body_def find_text_def star_fields_def and_then_def
      split: option.splits sum.splits)

text \<open>
  Claim C5, as amended. \<open>extract_constellation_data\<close> never raises: every exception of
  its \<^verbatim>\<open>try\<close> body is printed and turned into \<^verbatim>\<open>None\<close>. That is the outcome when the
  file fails to parse, when any of the four elements is absent, and when the text of
  \<^verbatim>\<open>distance\<close> is missing or not numeric.
\<close>

theorem extract_reports_failure:
  "(et_parse fs p = Inl e \<longrightarrow>
      extract_constellation_data fs p = (None, [ErrorExtracting p e]))
   \<and> (et_parse fs p = Inr xml_root \<and> t \<in> set star_fields \<and> find_elem xml_root t = None \<longrightarrow>
      extract_constellation_data fs p = (None, [ErrorExtracting p AttributeError]))
   \<and> (et_parse fs p = Inr xml_root \<and> list_all (\<lambda>t. find_elem xml_root t \<noteq> None) star_fields
       \<and> find_elem xml_root ''distance'' = Some ed \<and> py_float (elem_text ed) = Inl e' \<longrightarrow>
      extract_constellation_data fs p = (None, [ErrorExtracting p e']))
   \<and> (\<forall>err. extract_body fs p = Inl err \<longrightarrow>
      extract_constellation_data fs p = (None, [ErrorExtracting p err]))"
proof -
  have a: "extract_constellation_data fs p = (None, [ErrorExtracting p e])"
    if "et_parse fs p = Inl e"
    using that by (simp add: extract_constellation_data_def extract_body_def)
  have b: "extract_constellation_data fs p = (None, [ErrorExtracting p AttributeError])"
    if "et_parse fs p = Inr xml_root" "t \<in> set star_fields" "find_elem xml_root t = None"
    using extract_body_missing [OF that] by (simp add: extract_constellation_data_def)
  have c: "extract_constellation_data fs p = (None, [ErrorExtracting p e'])"
    if "et_parse fs p = Inr xml_root" "list_all (\<lambda>t. find_elem xml_root t \<noteq> None) star_fields"
       "find_elem xml_root ''distance'' = Some ed" "py_float (elem_text ed) = Inl e'"
    using extract_body_bad_distance [OF that] by (simp add: extract_constellation_data_def)
  have d: "extract_constellation_data fs p = (None, [ErrorExtracting p err])"
    if "extract_body fs p = Inl err" for err
    using that by (simp add: extract_constellation_data_def)
  from a b c d show ?thesis by blast
qed

theorem extract_reports_failure_witness:
  "et_parse example_fs ''systems/broken.xml'' = Inl ParseError
   \<and> extract_constellation_data example_fs ''systems/broken.xml'' =
       (None, [ErrorExtracting ''systems/broken.xml'' ParseError])
   \<and> et_parse example_fs ''systems/noname.xml'' = Inr noname_xml
   \<and> ''declination'' \<in> set star_fields \<and> find_elem noname_xml ''declination'' = None
   \<and> extract_constellation_data example_fs ''systems/noname.xml'' =
       (None, [ErrorExtracting ''systems/noname.xml'' AttributeError])
   \<and> et_parse example_fs ''faulty/baddist.xml'' = Inr baddist_xml
   \<and> list_all (\<lambda>t. find_elem baddist_xml t \<noteq> None) star_fields
   \<and> find_elem baddist_xml ''distance'' = Some (Element ''distance'' (Some ''far'') [])
   \<and> py_float (Some ''far'') = Inl ValueError
   \<and> extract_constellation_data example_fs ''faulty/baddist.xml'' =
       (None, [ErrorExtracting ''faulty/baddist.xml'' ValueError])"
proof -
  have a: "et_parse example_fs ''systems/broken.xml'' = Inl ParseError"
    by (simp add: fs_eval)
  have b: "et_parse example_fs ''systems/noname.xml'' = Inr noname_xml"
      "''declination'' \<in> set star_fields" "find_elem noname_xml ''declination'' = None"
    by (simp_all add: fs_eval star_fields_def)
  have c: "et_parse example_fs ''faulty/baddist.xml'' = Inr baddist_xml"
      "list_all (\<lambda>t. find_elem baddist_xml t \<noteq> None) star_fields"
      "find_elem baddist_xml ''distance'' = Some (Element ''distance'' (Some ''far'') [])"
    by (simp_all add: fs_eval star_fields_def)
  have f: "py_float (Some ''far'') = Inl ValueError"
    by (simp add: py_float_def str_eval)
  then have f': "py_float (elem_text (Element ''distance'' (Some ''far'') [])) = Inl ValueError"
    by simp
  note t1 = extract_reports_failure
    [of example_fs "''systems/broken.xml''" ParseError noname_xml "''name''"
        "Element ''name'' None []" ValueError]
  note t2 = extract_reports_failure
    [of example_fs "''systems/noname.xml''" ParseError noname_xml "''declination''"
        "Element ''name'' None []" ValueError]
  note t3 = extract_reports_failure
    [of example_fs "''faulty/baddist.xml''" ParseError baddist_xml "''name''"
        "Element ''distance'' (Some ''far'') []" ValueError]
  from t1 a have r1: "extract_constellation_data example_fs ''systems/broken.xml'' =
       (None, [ErrorExtracting ''systems/broken.xml'' ParseError])" by blast
  from t2 b have r2: "extract_constellation_data example_fs ''systems/noname.xml'' =
       (None, [ErrorExtracting ''systems/noname.xml'' AttributeError])" by blast
  from t3 c f' have r3: "extract_constellation_data example_fs ''faulty/baddist.xml'' =
       (None, [ErrorExtracting ''faulty/baddist.xml'' ValueError])" by blast
  from a b c f r1 r2 r3 show ?thesis by blast
qed

text \<open>
  Claim C5 as stated fails for the right ascension and the declination: their texts
  are stored as they are, so a text that is not numeric does not make the extraction
  fail.
\<close>

theorem extract_non_numeric_angle_counterexample:
  "et_parse example_fs ''faulty/badra.xml'' = Inr badra_xml
   \<and> find_text badra_xml ''rightascension'' = Inr (Some ''abc'')
   \<and> float_of_str ''abc'' = Inl ValueError
   \<and> extract_constellation_data example_fs ''faulty/badra.xml'' =
       (Some [\<lparr>star_name = Some ''Bad'', rightascension = Some ''abc'',
               declination = Some ''0 0 0'', distance = Fin 1\<rparr>], [])"
  by (simp add: extract_constellation_data_def extract_body_def fs_eval py_float_def str_eval
        round64_5_half)

subsection \<open>Opening a file whose angle is not numeric\<close>

text \<open>
  Claim C2. The claim is that every failure while opening or plotting a constellation,
  a malformed numeric field included, is caught and logged and that no exception leaves
  \<open>show_details_window\<close>. On the file whose right ascension is \<^verbatim>\<open>abc\<close> the
  extraction succeeds and \<open>convert_to_cartesian\<close>, called from \<open>draw_constellation\<close>
  outside any handler, raises \<^verbatim>\<open>ValueError\<close>, which leaves \<open>show_details_window\<close>.
\<close>

theorem show_details_window_raises:
  "load_constellations example_fs (main_window_init ''faulty'') =
     Inr (\<lparr>xml_folder = ''faulty'',
           constelaciones = [\<lparr>name = ''Bad'', path = ''faulty/badra.xml''\<rparr>,
                             \<lparr>name = ''Far'', path = ''faulty/baddist.xml''\<rparr>],
           buttons = [], button_layout = []\<rparr>, [])
   \<and> extract_constellation_data example_fs ''faulty/badra.xml'' =
       (Some [\<lparr>star_name = Some ''Bad'', rightascension = Some ''abc'',
               declination = Some ''0 0 0'', distance = Fin 1\<rparr>], [])
   \<and> show_details_window example_fs ''faulty/badra.xml'' = Inl ValueError"
proof -
  have l: "load_constellations example_fs (main_window_init ''faulty'') =
     Inr (\<lparr>xml_folder = ''faulty'',
           constelaciones = [\<lparr>name = ''Bad'', path = ''faulty/badra.xml''\<rparr>,
                             \<lparr>name = ''Far'', path = ''faulty/baddist.xml''\<rparr>],
           buttons = [], button_layout = []\<rparr>, [])"
    by (simp add: fs_eval load_constellations_def get_name_from_xml_def)
  have x: "extract_constellation_data example_fs ''faulty/badra.xml'' =
       (Some [\<lparr>star_name = Some ''Bad'', rightascension = Some ''abc'',
               declination = Some ''0 0 0'', distance = Fin 1\<rparr>], [])"
    by (simp add: extract_constellation_data_def extract_body_def fs_eval py_float_def str_eval
        round64_5_half)
  have c: "convert_to_cartesian (Some ''abc'') (Some ''0 0 0'') (Fin 1) = Inl ValueError"
    by (simp add: convert_to_cartesian_def str_split_opt_def unpack3_floats_def str_eval)
  have "show_details_window example_fs ''faulty/badra.xml'' = Inl ValueError"
    by (simp add: show_details_window_def x draw_constellation_def c)
  with l x show ?thesis by blast
qed

text \<open>
  The sibling field is handled: a distance that is not numeric is caught and printed
  inside \<open>extract_constellation_data\<close>, and nothing is drawn. \<open>load_constellations\<close>
  raises nothing once the directory is listed.
\<close>

lemma show_details_window_bad_distance:
  "show_details_window example_fs ''faulty/baddist.xml'' =
     Inr (None, [ErrorExtracting ''faulty/baddist.xml'' ValueError])"
  by (simp add: show_details_window_def extract_constellation_data_def extract_body_def fs_eval
      py_float_def str_eval)

lemma load_constellations_no_raise:
  "os_listdir fs (xml_folder w) = Inr files \<Longrightarrow> \<exists>r. load_constellations fs w = Inr r"
  by (simp add: load_constellations_def)

end
